theory Spec2Isabelle
  imports Main "HOL-Library.Word"
begin

unbundle bit_operations_syntax

section \<open>The Verilog AST graph of lorina (ast\_graph.hpp)\<close>

subsection \<open>Handles and nodes\<close>

text \<open>
  \<^verbatim>\<open>using ast_id = uint32_t;\<close>
  A handle is an unsigned 32-bit machine integer.
\<close>

type_synonym ast_id = "32 word"

datatype sign_kind = SIGN_MINUS

datatype expr_kind = EXPR_ADD | EXPR_MUL | EXPR_NOT | EXPR_AND | EXPR_OR | EXPR_XOR

text \<open>
  The data members that the three declaration classes add to \<open>ast_node\<close>:
  \<^verbatim>\<open>bool word_level_; ast_id hi_; ast_id lo_;\<close>
  The bit-level constructors initialise \<open>word_level_\<close> only, so \<open>hi_\<close> and \<open>lo_\<close>
  are options: \<open>None\<close> is a member that its constructor left uninitialised.
\<close>

record decl_fields =
  word_level_field :: bool
  hi_field :: "ast_id option"
  lo_field :: "ast_id option"

text \<open>
  The class hierarchy below \<open>ast_node\<close> is closed: one constructor per derived class,
  carrying the data members that the class adds to the base class.
\<close>

datatype ast_variant =
    V_numeral string
  | V_identifier string
  | V_arithmetic_identifier string
  | V_identifier_list
  | V_array_select
  | V_range_expression
  | V_sign sign_kind
  | V_expression expr_kind
  | V_system_function ast_id
  | V_input_declaration decl_fields
  | V_output_declaration decl_fields
  | V_wire_declaration decl_fields
  | V_module_instantiation ast_id ast_id "(ast_id \<times> ast_id) list" "ast_id list"
  | V_parameter_declaration
  | V_assignment
  | V_module string "ast_id list" "ast_id list"

text \<open>
  The base class \<open>ast_node\<close> holds \<open>id_\<close> and \<open>children_\<close>; \<open>node_variant\<close> is the
  dynamic type of the object together with the members of the derived class.
\<close>

record ast_node =
  node_id :: ast_id
  node_children :: "ast_id list"
  node_variant :: ast_variant

text \<open>
  What a call can do instead of returning. \<open>Aborted\<close>: the statements
  \<open>assert( false && "unknown node type" ); std::abort();\<close> were reached, which end the
  process with or without \<open>NDEBUG\<close>. \<open>Assertion_failed\<close>: the condition of another
  \<open>assert\<close> is false; the process aborts there (with \<open>NDEBUG\<close> the assertion is
  compiled out and the statement after it reads \<open>nodes_\<close> out of range).
  \<open>Out_of_range\<close>: \<open>std::vector::at\<close> threw \<open>std::out_of_range\<close>, which the caller may
  catch. \<open>Undefined\<close>: \<open>operator[]\<close> read outside the vector, which is undefined
  behaviour.
\<close>

datatype failure = Aborted | Assertion_failed | Out_of_range | Undefined

text \<open>The two constructors of the base class.\<close>

definition ast_node_leaf :: "ast_id \<Rightarrow> ast_variant \<Rightarrow> ast_node" where
  "ast_node_leaf i v = \<lparr>node_id = i, node_children = [], node_variant = v\<rparr>"

definition ast_node_with :: "ast_id \<Rightarrow> ast_id list \<Rightarrow> ast_variant \<Rightarrow> ast_node" where
  "ast_node_with i children v = \<lparr>node_id = i, node_children = children, node_variant = v\<rparr>"

definition is_leaf :: "ast_node \<Rightarrow> bool" where
  "is_leaf n = (length (node_children n) = 0)"

text \<open>
  \<open>foreach_child\<close> calls \<open>fn\<close> on every child in order. The effect of the callback is a
  state transformer, so the loop of the \<open>const\<close> overload is a fold over \<open>children_\<close>.
  The other overload passes each child as \<open>ast_id&\<close>: its callback may also assign to the
  child, so it returns the child to store, and the loop returns the node with the
  children it leaves.
\<close>

definition foreach_child :: "(ast_id \<Rightarrow> 's \<Rightarrow> 's) \<Rightarrow> ast_node \<Rightarrow> 's \<Rightarrow> 's" where
  "foreach_child fn n s = fold fn (node_children n) s"

definition foreach_child_mutable ::
  "(ast_id \<Rightarrow> 's \<Rightarrow> ast_id \<times> 's) \<Rightarrow> ast_node \<Rightarrow> 's \<Rightarrow> ast_node \<times> 's" where
  "foreach_child_mutable fn n s =
     (let (children, s') =
        fold (\<lambda>child (seen, st). let (child', st') = fn child st in (seen @ [child'], st'))
          (node_children n) ([], s)
      in (n\<lparr>node_children := children\<rparr>, s'))"

text \<open>\<open>children_[k]\<close>: \<open>operator[]\<close> is unchecked, reading past the end is undefined.\<close>

definition child_at :: "ast_node \<Rightarrow> nat \<Rightarrow> failure + ast_id" where
  "child_at n k = (if k < length (node_children n) then Inr (node_children n ! k) else Inl Undefined)"

subsection \<open>The node classes\<close>

definition ast_numeral :: "ast_id \<Rightarrow> string \<Rightarrow> ast_node" where
  "ast_numeral i v = ast_node_leaf i (V_numeral v)"

definition ast_identifier :: "ast_id \<Rightarrow> string \<Rightarrow> ast_node" where
  "ast_identifier i identifier = ast_node_leaf i (V_identifier identifier)"

definition ast_arithmetic_identifier :: "ast_id \<Rightarrow> string \<Rightarrow> ast_node" where
  "ast_arithmetic_identifier i identifier = ast_node_leaf i (V_arithmetic_identifier identifier)"

definition ast_identifier_list :: "ast_id \<Rightarrow> ast_id list \<Rightarrow> ast_node" where
  "ast_identifier_list i identifiers = ast_node_with i identifiers V_identifier_list"

definition ast_array_select :: "ast_id \<Rightarrow> ast_id \<Rightarrow> ast_id \<Rightarrow> ast_node" where
  "ast_array_select i array index = ast_node_with i [array, index] V_array_select"

definition ast_range_expression :: "ast_id \<Rightarrow> ast_id \<Rightarrow> ast_id \<Rightarrow> ast_node" where
  "ast_range_expression i hi lo = ast_node_with i [hi, lo] V_range_expression"

definition ast_sign :: "ast_id \<Rightarrow> sign_kind \<Rightarrow> ast_id \<Rightarrow> ast_node" where
  "ast_sign i kind expr = ast_node_with i [expr] (V_sign kind)"

definition ast_expression1 :: "ast_id \<Rightarrow> expr_kind \<Rightarrow> ast_id \<Rightarrow> ast_node" where
  "ast_expression1 i kind left = ast_node_with i [left] (V_expression kind)"

definition ast_expression2 :: "ast_id \<Rightarrow> expr_kind \<Rightarrow> ast_id \<Rightarrow> ast_id \<Rightarrow> ast_node" where
  "ast_expression2 i kind left right = ast_node_with i [left, right] (V_expression kind)"

definition ast_system_function :: "ast_id \<Rightarrow> ast_id \<Rightarrow> ast_id list \<Rightarrow> ast_node" where
  "ast_system_function i f args = ast_node_with i args (V_system_function f)"

definition bit_level_fields :: decl_fields where
  "bit_level_fields = \<lparr>word_level_field = False, hi_field = None, lo_field = None\<rparr>"

definition word_level_fields :: "ast_id \<Rightarrow> ast_id \<Rightarrow> decl_fields" where
  "word_level_fields hi lo = \<lparr>word_level_field = True, hi_field = Some hi, lo_field = Some lo\<rparr>"

definition ast_input_declaration :: "ast_id \<Rightarrow> ast_id list \<Rightarrow> ast_node" where
  "ast_input_declaration i identifiers =
     ast_node_with i identifiers (V_input_declaration bit_level_fields)"

definition ast_input_declaration_range :: "ast_id \<Rightarrow> ast_id list \<Rightarrow> ast_id \<Rightarrow> ast_id \<Rightarrow> ast_node" where
  "ast_input_declaration_range i identifiers hi lo =
     ast_node_with i identifiers (V_input_declaration (word_level_fields hi lo))"

definition ast_output_declaration :: "ast_id \<Rightarrow> ast_id list \<Rightarrow> ast_node" where
  "ast_output_declaration i identifiers =
     ast_node_with i identifiers (V_output_declaration bit_level_fields)"

definition ast_output_declaration_range :: "ast_id \<Rightarrow> ast_id list \<Rightarrow> ast_id \<Rightarrow> ast_id \<Rightarrow> ast_node" where
  "ast_output_declaration_range i identifiers hi lo =
     ast_node_with i identifiers (V_output_declaration (word_level_fields hi lo))"

definition ast_wire_declaration :: "ast_id \<Rightarrow> ast_id list \<Rightarrow> ast_node" where
  "ast_wire_declaration i identifiers =
     ast_node_with i identifiers (V_wire_declaration bit_level_fields)"

definition ast_wire_declaration_range :: "ast_id \<Rightarrow> ast_id list \<Rightarrow> ast_id \<Rightarrow> ast_id \<Rightarrow> ast_node" where
  "ast_wire_declaration_range i identifiers hi lo =
     ast_node_with i identifiers (V_wire_declaration (word_level_fields hi lo))"

definition ast_module_instantiation ::
  "ast_id \<Rightarrow> ast_id \<Rightarrow> ast_id \<Rightarrow> (ast_id \<times> ast_id) list \<Rightarrow> ast_id list \<Rightarrow> ast_node" where
  "ast_module_instantiation i module_name instance_name port_assignment parameters =
     ast_node_leaf i (V_module_instantiation module_name instance_name port_assignment parameters)"

definition ast_parameter_declaration :: "ast_id \<Rightarrow> ast_id \<Rightarrow> ast_id \<Rightarrow> ast_node" where
  "ast_parameter_declaration i identifier expr =
     ast_node_with i [identifier, expr] V_parameter_declaration"

definition ast_assignment :: "ast_id \<Rightarrow> ast_id \<Rightarrow> ast_id \<Rightarrow> ast_node" where
  "ast_assignment i signal expr = ast_node_with i [signal, expr] V_assignment"

definition ast_module :: "ast_id \<Rightarrow> string \<Rightarrow> ast_id list \<Rightarrow> ast_id list \<Rightarrow> ast_node" where
  "ast_module i module_name args decls = ast_node_leaf i (V_module module_name args decls)"

text \<open>Accessors of the declaration classes; \<open>hi()\<close> and \<open>lo()\<close> assert \<open>word_level_\<close>.\<close>

definition word_level :: "decl_fields \<Rightarrow> bool" where
  "word_level d = word_level_field d"

definition bit_level :: "decl_fields \<Rightarrow> bool" where
  "bit_level d = (\<not> word_level_field d)"

definition decl_hi :: "decl_fields \<Rightarrow> failure + ast_id" where
  "decl_hi d =
     (if word_level_field d
      then (case hi_field d of Some h \<Rightarrow> Inr h | None \<Rightarrow> Inl Undefined)
      else Inl Assertion_failed)"

definition decl_lo :: "decl_fields \<Rightarrow> failure + ast_id" where
  "decl_lo d =
     (if word_level_field d
      then (case lo_field d of Some l \<Rightarrow> Inr l | None \<Rightarrow> Inl Undefined)
      else Inl Assertion_failed)"

definition identifiers :: "ast_node \<Rightarrow> ast_id list" where
  "identifiers n = node_children n"

text \<open>\<open>ast_range_expression::hi\<close> is \<open>children_[0]\<close>, \<open>lo\<close> is \<open>children_[1]\<close>.\<close>

definition range_hi :: "ast_node \<Rightarrow> failure + ast_id" where
  "range_hi n = child_at n 0"

definition range_lo :: "ast_node \<Rightarrow> failure + ast_id" where
  "range_lo n = child_at n 1"

subsection \<open>The handle-or-error value\<close>

text \<open>The class \<open>verilog_ast_graph::ast_or_error\<close> has the single member \<open>ast_id ast_\<close>.\<close>

datatype ast_or_error = Ast_or_error (ast_field: ast_id)

definition ast_or_error_of :: "ast_id \<Rightarrow> ast_or_error" where
  "ast_or_error_of a = Ast_or_error (a OR 0x80000000)"

definition ast_or_error_default :: ast_or_error where
  "ast_or_error_default = Ast_or_error 0"

definition ast :: "ast_or_error \<Rightarrow> ast_id" where
  "ast v = ast_field v AND 0x7FFFFFFF"

definition valid :: "ast_or_error \<Rightarrow> bool" where
  "valid v = (ast_field v AND 0x80000000 \<noteq> 0)"

subsection \<open>The graph\<close>

text \<open>
  \<^verbatim>\<open>std::vector<ast_node*> nodes_;\<close> owns the nodes, in creation order; the two
  \<open>unordered_map\<close>s share identifiers. A pointer in \<open>nodes_\<close> is modelled by the node it
  points to: nodes are never changed after construction and never shared between slots.
\<close>

record verilog_ast_graph =
  nodes :: "ast_node list"
  identifier_hash :: "string \<rightharpoonup> ast_id"
  arithmetic_identifier_hash :: "string \<rightharpoonup> ast_id"

definition empty_graph :: verilog_ast_graph where
  "empty_graph = \<lparr>nodes = [], identifier_hash = Map.empty, arithmetic_identifier_hash = Map.empty\<rparr>"

text \<open>
  \<^verbatim>\<open>const uint32_t index = nodes_.size(); nodes_.emplace_back( new T( index, args... ) ); return index;\<close>
  The size is converted to 32 bits, which keeps its low 32 bits. The constructor call
  \<open>new T( index, args... )\<close> is the function \<open>mk\<close> applied to the index.
\<close>

definition create_node :: "(ast_id \<Rightarrow> ast_node) \<Rightarrow> verilog_ast_graph \<Rightarrow> ast_id \<times> verilog_ast_graph" where
  "create_node mk g =
     (let index = (of_nat (length (nodes g)) :: ast_id)
      in (index, g\<lparr>nodes := nodes g @ [mk index]\<rparr>))"

text \<open>\<open>node_ptr\<close> is \<open>nodes_.at( id )\<close>, which throws \<open>std::out_of_range\<close>.\<close>

definition node_ptr :: "verilog_ast_graph \<Rightarrow> ast_id \<Rightarrow> failure + ast_node" where
  "node_ptr g i = (if unat i < length (nodes g) then Inr (nodes g ! unat i) else Inl Out_of_range)"

definition create_numeral :: "string \<Rightarrow> verilog_ast_graph \<Rightarrow> ast_id \<times> verilog_ast_graph" where
  "create_numeral text g = create_node (\<lambda>i. ast_numeral i text) g"

definition create_identifier :: "string \<Rightarrow> verilog_ast_graph \<Rightarrow> ast_id \<times> verilog_ast_graph" where
  "create_identifier identifier g =
     (case identifier_hash g identifier of
        None \<Rightarrow>
          (let (i, g') = create_node (\<lambda>i. ast_identifier i identifier) g
           in (i, g'\<lparr>identifier_hash := (identifier_hash g')(identifier \<mapsto> i)\<rparr>))
      | Some h \<Rightarrow> (h, g))"

definition create_arithmetic_identifier :: "string \<Rightarrow> verilog_ast_graph \<Rightarrow> ast_id \<times> verilog_ast_graph" where
  "create_arithmetic_identifier identifier g =
     (case arithmetic_identifier_hash g identifier of
        None \<Rightarrow>
          (let (i, g') = create_node (\<lambda>i. ast_arithmetic_identifier i identifier) g
           in (i, g'\<lparr>arithmetic_identifier_hash := (arithmetic_identifier_hash g')(identifier \<mapsto> i)\<rparr>))
      | Some h \<Rightarrow> (h, g))"

definition create_identifier_list :: "ast_id list \<Rightarrow> verilog_ast_graph \<Rightarrow> ast_id \<times> verilog_ast_graph" where
  "create_identifier_list identifier_list g = create_node (\<lambda>i. ast_identifier_list i identifier_list) g"

definition create_range_expression :: "ast_id \<Rightarrow> ast_id \<Rightarrow> verilog_ast_graph \<Rightarrow> ast_id \<times> verilog_ast_graph" where
  "create_range_expression hi lo g = create_node (\<lambda>i. ast_range_expression i hi lo) g"

definition create_array_select :: "ast_id \<Rightarrow> ast_id \<Rightarrow> verilog_ast_graph \<Rightarrow> ast_id \<times> verilog_ast_graph" where
  "create_array_select array index g = create_node (\<lambda>i. ast_array_select i array index) g"

definition create_sum_expression :: "ast_id \<Rightarrow> ast_id \<Rightarrow> verilog_ast_graph \<Rightarrow> ast_id \<times> verilog_ast_graph" where
  "create_sum_expression term expr g = create_node (\<lambda>i. ast_expression2 i EXPR_ADD term expr) g"

definition create_negative_sign :: "ast_id \<Rightarrow> verilog_ast_graph \<Rightarrow> ast_id \<times> verilog_ast_graph" where
  "create_negative_sign expr g = create_node (\<lambda>i. ast_sign i SIGN_MINUS expr) g"

definition create_mul_expression :: "ast_id \<Rightarrow> ast_id \<Rightarrow> verilog_ast_graph \<Rightarrow> ast_id \<times> verilog_ast_graph" where
  "create_mul_expression term expr g = create_node (\<lambda>i. ast_expression2 i EXPR_MUL term expr) g"

definition create_not_expression :: "ast_id \<Rightarrow> verilog_ast_graph \<Rightarrow> ast_id \<times> verilog_ast_graph" where
  "create_not_expression expr g = create_node (\<lambda>i. ast_expression1 i EXPR_NOT expr) g"

definition create_and_expression :: "ast_id \<Rightarrow> ast_id \<Rightarrow> verilog_ast_graph \<Rightarrow> ast_id \<times> verilog_ast_graph" where
  "create_and_expression term expr g = create_node (\<lambda>i. ast_expression2 i EXPR_AND term expr) g"

definition create_or_expression :: "ast_id \<Rightarrow> ast_id \<Rightarrow> verilog_ast_graph \<Rightarrow> ast_id \<times> verilog_ast_graph" where
  "create_or_expression term expr g = create_node (\<lambda>i. ast_expression2 i EXPR_OR term expr) g"

definition create_xor_expression :: "ast_id \<Rightarrow> ast_id \<Rightarrow> verilog_ast_graph \<Rightarrow> ast_id \<times> verilog_ast_graph" where
  "create_xor_expression term expr g = create_node (\<lambda>i. ast_expression2 i EXPR_XOR term expr) g"

definition create_system_function :: "ast_id \<Rightarrow> ast_id list \<Rightarrow> verilog_ast_graph \<Rightarrow> ast_id \<times> verilog_ast_graph" where
  "create_system_function f args g = create_node (\<lambda>i. ast_system_function i f args) g"

definition create_module_instantiation ::
  "ast_id \<Rightarrow> ast_id \<Rightarrow> (ast_id \<times> ast_id) list \<Rightarrow> ast_id list \<Rightarrow> verilog_ast_graph \<Rightarrow> ast_id \<times> verilog_ast_graph" where
  "create_module_instantiation module_name instance_name port_assignment parameters g =
     create_node (\<lambda>i. ast_module_instantiation i module_name instance_name port_assignment parameters) g"

definition create_parameter_declaration :: "ast_id \<Rightarrow> ast_id \<Rightarrow> verilog_ast_graph \<Rightarrow> ast_id \<times> verilog_ast_graph" where
  "create_parameter_declaration identifier expr g = create_node (\<lambda>i. ast_parameter_declaration i identifier expr) g"

definition create_assignment :: "ast_id \<Rightarrow> ast_id \<Rightarrow> verilog_ast_graph \<Rightarrow> ast_id \<times> verilog_ast_graph" where
  "create_assignment signal expr g = create_node (\<lambda>i. ast_assignment i signal expr) g"

definition create_module :: "string \<Rightarrow> ast_id list \<Rightarrow> ast_id list \<Rightarrow> verilog_ast_graph \<Rightarrow> ast_id \<times> verilog_ast_graph" where
  "create_module module_name args decls g = create_node (\<lambda>i. ast_module i module_name args decls) g"

subsection \<open>The adapter constructors\<close>

text \<open>
  \<open>dynamic_cast<ast_identifier_list*>( node )\<close> is non-null exactly when the object is an
  \<open>ast_identifier_list\<close>, \<open>dynamic_cast<ast_identifier*>( node )\<close> exactly when it is an
  \<open>ast_identifier\<close>: no class derives from either.
\<close>

definition is_identifier_list :: "ast_node \<Rightarrow> bool" where
  "is_identifier_list n = (case node_variant n of V_identifier_list \<Rightarrow> True | _ \<Rightarrow> False)"

definition is_identifier :: "ast_node \<Rightarrow> bool" where
  "is_identifier n = (case node_variant n of V_identifier _ \<Rightarrow> True | _ \<Rightarrow> False)"

definition is_range_expression :: "ast_node \<Rightarrow> bool" where
  "is_range_expression n = (case node_variant n of V_range_expression \<Rightarrow> True | _ \<Rightarrow> False)"

text \<open>
  The one-argument adapters. \<open>assert( id < nodes_.size() )\<close> comes first; the branch of
  the last \<open>else\<close> is \<open>assert( false && "unknown node type" ); std::abort();\<close>.
\<close>

definition create_input_declaration :: "ast_id \<Rightarrow> verilog_ast_graph \<Rightarrow> failure + ast_id \<times> verilog_ast_graph" where
  "create_input_declaration i g =
     (if \<not> unat i < length (nodes g) then Inl Assertion_failed
      else let node = nodes g ! unat i in
        if is_identifier_list node
        then Inr (create_node (\<lambda>k. ast_input_declaration k (identifiers node)) g)
        else if is_identifier node
        then Inr (create_node (\<lambda>k. ast_input_declaration k [i]) g)
        else Inl Aborted)"

definition create_output_declaration :: "ast_id \<Rightarrow> verilog_ast_graph \<Rightarrow> failure + ast_id \<times> verilog_ast_graph" where
  "create_output_declaration i g =
     (if \<not> unat i < length (nodes g) then Inl Assertion_failed
      else let node = nodes g ! unat i in
        if is_identifier_list node
        then Inr (create_node (\<lambda>k. ast_output_declaration k (identifiers node)) g)
        else if is_identifier node
        then Inr (create_node (\<lambda>k. ast_output_declaration k [i]) g)
        else Inl Aborted)"

definition create_wire_declaration :: "ast_id \<Rightarrow> verilog_ast_graph \<Rightarrow> failure + ast_id \<times> verilog_ast_graph" where
  "create_wire_declaration i g =
     (if \<not> unat i < length (nodes g) then Inl Assertion_failed
      else let node = nodes g ! unat i in
        if is_identifier_list node
        then Inr (create_node (\<lambda>k. ast_wire_declaration k (identifiers node)) g)
        else if is_identifier node
        then Inr (create_node (\<lambda>k. ast_wire_declaration k [i]) g)
        else Inl Aborted)"

text \<open>
  The two-argument adapters. Both assertions come first. Then
  \<^verbatim>\<open>ast_range_expression* range = static_cast<ast_range_expression*>( nodes_[rid] );\<close>
  converts the pointer with no run-time check, whatever the class of the node is, and
  \<open>range->hi()\<close>, \<open>range->lo()\<close> are evaluated only inside the two branches that create a
  node. They are the non-virtual \<open>children_[0]\<close> and \<open>children_[1]\<close> of the \<open>ast_node\<close>
  base object, so they are modelled as \<open>range_hi\<close> and \<open>range_lo\<close> of whatever node \<open>rid\<close>
  names: its first two children when it has them, and an out-of-bounds read otherwise.
  (For a node of another class the C++ standard leaves the conversion itself undefined;
  the model follows the members that the compiled code reads, which are those of the
  base class.)
\<close>

definition range_of :: "ast_node \<Rightarrow> failure + ast_id \<times> ast_id" where
  "range_of r =
     (case range_hi r of Inl e \<Rightarrow> Inl e
      | Inr hi \<Rightarrow> (case range_lo r of Inl e \<Rightarrow> Inl e | Inr lo \<Rightarrow> Inr (hi, lo)))"

definition create_input_declaration_range ::
  "ast_id \<Rightarrow> ast_id \<Rightarrow> verilog_ast_graph \<Rightarrow> failure + ast_id \<times> verilog_ast_graph" where
  "create_input_declaration_range i rid g =
     (if \<not> unat i < length (nodes g) then Inl Assertion_failed
      else if \<not> unat rid < length (nodes g) then Inl Assertion_failed
      else let node = nodes g ! unat i; r = nodes g ! unat rid in
        if is_identifier_list node
        then (case range_of r of Inl e \<Rightarrow> Inl e
              | Inr (hi, lo) \<Rightarrow> Inr (create_node (\<lambda>k. ast_input_declaration_range k (identifiers node) hi lo) g))
        else if is_identifier node
        then (case range_of r of Inl e \<Rightarrow> Inl e
              | Inr (hi, lo) \<Rightarrow> Inr (create_node (\<lambda>k. ast_input_declaration_range k [i] hi lo) g))
        else Inl Aborted)"

definition create_output_declaration_range ::
  "ast_id \<Rightarrow> ast_id \<Rightarrow> verilog_ast_graph \<Rightarrow> failure + ast_id \<times> verilog_ast_graph" where
  "create_output_declaration_range i rid g =
     (if \<not> unat i < length (nodes g) then Inl Assertion_failed
      else if \<not> unat rid < length (nodes g) then Inl Assertion_failed
      else let node = nodes g ! unat i; r = nodes g ! unat rid in
        if is_identifier_list node
        then (case range_of r of Inl e \<Rightarrow> Inl e
              | Inr (hi, lo) \<Rightarrow> Inr (create_node (\<lambda>k. ast_output_declaration_range k (identifiers node) hi lo) g))
        else if is_identifier node
        then (case range_of r of Inl e \<Rightarrow> Inl e
              | Inr (hi, lo) \<Rightarrow> Inr (create_node (\<lambda>k. ast_output_declaration_range k [i] hi lo) g))
        else Inl Aborted)"

definition create_wire_declaration_range ::
  "ast_id \<Rightarrow> ast_id \<Rightarrow> verilog_ast_graph \<Rightarrow> failure + ast_id \<times> verilog_ast_graph" where
  "create_wire_declaration_range i rid g =
     (if \<not> unat i < length (nodes g) then Inl Assertion_failed
      else if \<not> unat rid < length (nodes g) then Inl Assertion_failed
      else let node = nodes g ! unat i; r = nodes g ! unat rid in
        if is_identifier_list node
        then (case range_of r of Inl e \<Rightarrow> Inl e
              | Inr (hi, lo) \<Rightarrow> Inr (create_node (\<lambda>k. ast_wire_declaration_range k (identifiers node) hi lo) g))
        else if is_identifier node
        then (case range_of r of Inl e \<Rightarrow> Inl e
              | Inr (hi, lo) \<Rightarrow> Inr (create_node (\<lambda>k. ast_wire_declaration_range k [i] hi lo) g))
        else Inl Aborted)"

subsection \<open>Sequences of calls\<close>

text \<open>
  What a parser does with a graph is a sequence of calls of the public \<open>create_*\<close>
  member functions; a fatal call ends the sequence.
\<close>

datatype call =
    Create_numeral string
  | Create_identifier string
  | Create_arithmetic_identifier string
  | Create_identifier_list "ast_id list"
  | Create_range_expression ast_id ast_id
  | Create_array_select ast_id ast_id
  | Create_sum_expression ast_id ast_id
  | Create_negative_sign ast_id
  | Create_mul_expression ast_id ast_id
  | Create_not_expression ast_id
  | Create_and_expression ast_id ast_id
  | Create_or_expression ast_id ast_id
  | Create_xor_expression ast_id ast_id
  | Create_system_function ast_id "ast_id list"
  | Create_input_declaration ast_id
  | Create_input_declaration_range ast_id ast_id
  | Create_output_declaration ast_id
  | Create_output_declaration_range ast_id ast_id
  | Create_wire_declaration ast_id
  | Create_wire_declaration_range ast_id ast_id
  | Create_module_instantiation ast_id ast_id "(ast_id \<times> ast_id) list" "ast_id list"
  | Create_parameter_declaration ast_id ast_id
  | Create_assignment ast_id ast_id
  | Create_module string "ast_id list" "ast_id list"

fun exec :: "call \<Rightarrow> verilog_ast_graph \<Rightarrow> failure + ast_id \<times> verilog_ast_graph" where
  "exec (Create_numeral s) g = Inr (create_numeral s g)"
| "exec (Create_identifier s) g = Inr (create_identifier s g)"
| "exec (Create_arithmetic_identifier s) g = Inr (create_arithmetic_identifier s g)"
| "exec (Create_identifier_list ids) g = Inr (create_identifier_list ids g)"
| "exec (Create_range_expression hi lo) g = Inr (create_range_expression hi lo g)"
| "exec (Create_array_select a k) g = Inr (create_array_select a k g)"
| "exec (Create_sum_expression l r) g = Inr (create_sum_expression l r g)"
| "exec (Create_negative_sign e) g = Inr (create_negative_sign e g)"
| "exec (Create_mul_expression l r) g = Inr (create_mul_expression l r g)"
| "exec (Create_not_expression e) g = Inr (create_not_expression e g)"
| "exec (Create_and_expression l r) g = Inr (create_and_expression l r g)"
| "exec (Create_or_expression l r) g = Inr (create_or_expression l r g)"
| "exec (Create_xor_expression l r) g = Inr (create_xor_expression l r g)"
| "exec (Create_system_function f args) g = Inr (create_system_function f args g)"
| "exec (Create_input_declaration i) g = create_input_declaration i g"
| "exec (Create_input_declaration_range i rid) g = create_input_declaration_range i rid g"
| "exec (Create_output_declaration i) g = create_output_declaration i g"
| "exec (Create_output_declaration_range i rid) g = create_output_declaration_range i rid g"
| "exec (Create_wire_declaration i) g = create_wire_declaration i g"
| "exec (Create_wire_declaration_range i rid) g = create_wire_declaration_range i rid g"
| "exec (Create_module_instantiation m n ps xs) g = Inr (create_module_instantiation m n ps xs g)"
| "exec (Create_parameter_declaration i e) g = Inr (create_parameter_declaration i e g)"
| "exec (Create_assignment x e) g = Inr (create_assignment x e g)"
| "exec (Create_module s args decls) g = Inr (create_module s args decls g)"

fun run :: "call list \<Rightarrow> verilog_ast_graph \<Rightarrow> failure + verilog_ast_graph" where
  "run [] g = Inr g"
| "run (c # cs) g = (case exec c g of Inl e \<Rightarrow> Inl e | Inr (h, g') \<Rightarrow> run cs g')"

text \<open>
  The handles that a call hands to the constructor of the new node as its children
  (for an adapter: the handle of the identifier or of the identifier list it reads).
\<close>

fun child_args :: "call \<Rightarrow> ast_id list" where
  "child_args (Create_identifier_list ids) = ids"
| "child_args (Create_range_expression hi lo) = [hi, lo]"
| "child_args (Create_array_select a k) = [a, k]"
| "child_args (Create_sum_expression l r) = [l, r]"
| "child_args (Create_negative_sign e) = [e]"
| "child_args (Create_mul_expression l r) = [l, r]"
| "child_args (Create_not_expression e) = [e]"
| "child_args (Create_and_expression l r) = [l, r]"
| "child_args (Create_or_expression l r) = [l, r]"
| "child_args (Create_xor_expression l r) = [l, r]"
| "child_args (Create_system_function f args) = args"
| "child_args (Create_input_declaration i) = [i]"
| "child_args (Create_input_declaration_range i rid) = [i]"
| "child_args (Create_output_declaration i) = [i]"
| "child_args (Create_output_declaration_range i rid) = [i]"
| "child_args (Create_wire_declaration i) = [i]"
| "child_args (Create_wire_declaration_range i rid) = [i]"
| "child_args (Create_parameter_declaration i e) = [i, e]"
| "child_args (Create_assignment x e) = [x, e]"
| "child_args _ = []"

text \<open>
  The caller passes as children only handles of nodes that exist at the time of the call:
  every such handle is below the size of the arena before the call.
\<close>

fun handles_known :: "call list \<Rightarrow> verilog_ast_graph \<Rightarrow> bool" where
  "handles_known [] g = True"
| "handles_known (c # cs) g =
     (list_all (\<lambda>h. unat h < length (nodes g)) (child_args c) \<and>
      (case exec c g of Inl e \<Rightarrow> True | Inr (h, g') \<Rightarrow> handles_known cs g'))"

subsection \<open>Predicates used in the proofs\<close>

text \<open>A call appended the node \<open>n\<close> and returned its handle \<open>h\<close>.\<close>

definition appended :: "verilog_ast_graph \<Rightarrow> ast_id \<Rightarrow> ast_node \<Rightarrow> verilog_ast_graph \<Rightarrow> bool" where
  "appended g h n g' \<longleftrightarrow>
     nodes g' = nodes g @ [n] \<and> h = of_nat (length (nodes g)) \<and> node_id n = h"

text \<open>The children of a node are those its class puts there: none for a module and a module
  instantiation, two for a range expression.\<close>

definition shape_ok :: "ast_node \<Rightarrow> bool" where
  "shape_ok n =
     (case node_variant n of
        V_module _ _ _ \<Rightarrow> node_children n = []
      | V_module_instantiation _ _ _ _ \<Rightarrow> node_children n = []
      | V_range_expression \<Rightarrow> length (node_children n) = 2
      | _ \<Rightarrow> True)"

text \<open>Every node carries the low 32 bits of its index.\<close>

definition ids_dense :: "verilog_ast_graph \<Rightarrow> bool" where
  "ids_dense g \<longleftrightarrow> (\<forall>i<length (nodes g). node_id (nodes g ! i) = of_nat i)"

definition shapes_ok :: "verilog_ast_graph \<Rightarrow> bool" where
  "shapes_ok g \<longleftrightarrow> (\<forall>n\<in>set (nodes g). shape_ok n)"

text \<open>Every entry of the two maps names a node of its flavour with that text.\<close>

definition interned_ok :: "verilog_ast_graph \<Rightarrow> bool" where
  "interned_ok g \<longleftrightarrow>
     (\<forall>s h. identifier_hash g s = Some h \<longrightarrow>
        (\<exists>i<length (nodes g). h = of_nat i \<and> node_variant (nodes g ! i) = V_identifier s)) \<and>
     (\<forall>s h. arithmetic_identifier_hash g s = Some h \<longrightarrow>
        (\<exists>i<length (nodes g). h = of_nat i \<and> node_variant (nodes g ! i) = V_arithmetic_identifier s))"

text \<open>Every child handle is below the index of the node that holds it.\<close>

definition children_below :: "verilog_ast_graph \<Rightarrow> bool" where
  "children_below g \<longleftrightarrow> (\<forall>i<length (nodes g). \<forall>c\<in>set (node_children (nodes g ! i)). unat c < i)"

text \<open>The calls that may return an existing node instead of creating one.\<close>

definition is_identifier_call :: "call \<Rightarrow> bool" where
  "is_identifier_call c =
     (case c of Create_identifier _ \<Rightarrow> True | Create_arithmetic_identifier _ \<Rightarrow> True | _ \<Rightarrow> False)"

text \<open>The calls of a sequence that are not a repeat of an earlier identifier call with the same
  text and flavour: each of them creates one node.\<close>

definition nodes_created :: "call list \<Rightarrow> nat" where
  "nodes_created cs =
     length (filter (\<lambda>c. \<not> is_identifier_call c) cs) + length (remdups (filter is_identifier_call cs))"

text \<open>The keys of the two maps are the texts that were asked for.\<close>

definition keys_ok :: "call list \<Rightarrow> verilog_ast_graph \<Rightarrow> bool" where
  "keys_ok cs g \<longleftrightarrow>
     (\<forall>s. identifier_hash g s \<noteq> None \<longleftrightarrow> Create_identifier s \<in> set cs) \<and>
     (\<forall>s. arithmetic_identifier_hash g s \<noteq> None \<longleftrightarrow> Create_arithmetic_identifier s \<in> set cs)"

subsection \<open>Example graphs\<close>

text \<open>
  Three identifiers, their list, the range \<open>[7:0]\<close> and an array select: the graph a
  parser builds for the calls of \<open>example_calls\<close>.
\<close>

definition example_calls :: "call list" where
  "example_calls =
     [Create_identifier ''a'', Create_identifier ''b'', Create_identifier ''c'',
      Create_identifier_list [0, 1, 2], Create_numeral ''7'', Create_numeral ''0'',
      Create_range_expression 4 5, Create_array_select 0 5]"

definition example_graph :: verilog_ast_graph where
  "example_graph =
     \<lparr>nodes = [ast_identifier 0 ''a'', ast_identifier 1 ''b'', ast_identifier 2 ''c'',
               ast_identifier_list 3 [0, 1, 2], ast_numeral 4 ''7'', ast_numeral 5 ''0'',
               ast_range_expression 6 4 5, ast_array_select 7 0 5],
      identifier_hash = [''a'' \<mapsto> 0, ''b'' \<mapsto> 1, ''c'' \<mapsto> 2],
      arithmetic_identifier_hash = Map.empty\<rparr>"

text \<open>A numeral; then the identifier \<open>n\<close>; then the arithmetic identifier \<open>n\<close>.\<close>

definition numeral_graph :: verilog_ast_graph where
  "numeral_graph =
     \<lparr>nodes = [ast_numeral 0 ''7''], identifier_hash = Map.empty,
      arithmetic_identifier_hash = Map.empty\<rparr>"

definition identifier_graph :: verilog_ast_graph where
  "identifier_graph =
     \<lparr>nodes = [ast_numeral 0 ''7'', ast_identifier 1 ''n''], identifier_hash = [''n'' \<mapsto> 1],
      arithmetic_identifier_hash = Map.empty\<rparr>"

definition both_pools_graph :: verilog_ast_graph where
  "both_pools_graph =
     \<lparr>nodes = [ast_numeral 0 ''7'', ast_identifier 1 ''n'', ast_arithmetic_identifier 2 ''n''],
      identifier_hash = [''n'' \<mapsto> 1], arithmetic_identifier_hash = [''n'' \<mapsto> 2]\<rparr>"

section \<open>Properties\<close>

subsection \<open>One call\<close>

lemmas node_defs =
  ast_node_leaf_def ast_node_with_def ast_numeral_def ast_identifier_def
  ast_arithmetic_identifier_def ast_identifier_list_def ast_array_select_def
  ast_range_expression_def ast_sign_def ast_expression1_def ast_expression2_def
  ast_system_function_def ast_input_declaration_def ast_input_declaration_range_def
  ast_output_declaration_def ast_output_declaration_range_def ast_wire_declaration_def
  ast_wire_declaration_range_def ast_module_instantiation_def ast_parameter_declaration_def
  ast_assignment_def ast_module_def

lemmas plain_create_defs =
  create_numeral_def create_identifier_list_def create_range_expression_def
  create_array_select_def create_sum_expression_def create_negative_sign_def
  create_mul_expression_def create_not_expression_def create_and_expression_def
  create_or_expression_def create_xor_expression_def create_system_function_def
  create_module_instantiation_def create_parameter_declaration_def create_assignment_def
  create_module_def

lemmas adapter_defs =
  create_input_declaration_def create_input_declaration_range_def
  create_output_declaration_def create_output_declaration_range_def
  create_wire_declaration_def create_wire_declaration_range_def

lemmas intern_defs = create_identifier_def create_arithmetic_identifier_def

lemma exec_nodes:
  assumes "exec c g = Inr (h, g')"
  shows "g' = g \<or> (\<exists>n. appended g h n g' \<and> shape_ok n)"
  using assms
  by (cases c)
     (auto simp: plain_create_defs adapter_defs intern_defs create_node_def appended_def
        shape_ok_def node_defs Let_def
      split: if_splits option.splits sum.splits prod.splits)

lemma exec_identifier_hash:
  assumes "exec c g = Inr (h, g')"
  shows "(c = Create_identifier s \<and> identifier_hash g s = Some h \<and> g' = g)
       \<or> (c = Create_identifier s \<and> identifier_hash g s = None \<and>
            identifier_hash g' = (identifier_hash g)(s \<mapsto> h) \<and>
            (\<exists>n. appended g h n g' \<and> node_variant n = V_identifier s))
       \<or> (c \<noteq> Create_identifier s \<and> identifier_hash g' s = identifier_hash g s)"
  using assms
  by (cases c)
     (auto simp: plain_create_defs adapter_defs intern_defs create_node_def appended_def
        node_defs Let_def
      split: if_splits option.splits sum.splits prod.splits)

lemma exec_arithmetic_identifier_hash:
  assumes "exec c g = Inr (h, g')"
  shows "(c = Create_arithmetic_identifier s \<and> arithmetic_identifier_hash g s = Some h \<and> g' = g)
       \<or> (c = Create_arithmetic_identifier s \<and> arithmetic_identifier_hash g s = None \<and>
            arithmetic_identifier_hash g' = (arithmetic_identifier_hash g)(s \<mapsto> h) \<and>
            (\<exists>n. appended g h n g' \<and> node_variant n = V_arithmetic_identifier s))
       \<or> (c \<noteq> Create_arithmetic_identifier s \<and> arithmetic_identifier_hash g' s = arithmetic_identifier_hash g s)"
  using assms
  by (cases c)
     (auto simp: plain_create_defs adapter_defs intern_defs create_node_def appended_def
        node_defs Let_def
      split: if_splits option.splits sum.splits prod.splits)

lemma exec_children:
  assumes "exec c g = Inr (h, g')" and "appended g h n g'"
  shows "set (node_children n) \<subseteq> set (child_args c)
       \<or> (\<exists>i\<in>set (child_args c). unat i < length (nodes g) \<and> node_children n = node_children (nodes g ! unat i))"
  using assms
  by (cases c)
     (auto simp: plain_create_defs adapter_defs intern_defs create_node_def appended_def
        node_defs Let_def identifiers_def
      split: if_splits option.splits sum.splits prod.splits)

lemma exec_ids_dense:
  assumes "exec c g = Inr (h, g')" and "ids_dense g"
  shows "ids_dense g'"
  using exec_nodes [OF assms(1)] assms(2)
  by (auto simp: ids_dense_def appended_def nth_append less_Suc_eq)

lemma exec_shapes_ok:
  assumes "exec c g = Inr (h, g')" and "shapes_ok g"
  shows "shapes_ok g'"
  using exec_nodes [OF assms(1)] assms(2)
  by (auto simp: shapes_ok_def appended_def)

lemma exec_size:
  assumes "exec c g = Inr (h, g')"
  shows "length (nodes g) \<le> length (nodes g') \<and> length (nodes g') \<le> Suc (length (nodes g))"
  using exec_nodes [OF assms(1)]
  by (auto simp: appended_def)

lemma exec_prefix:
  assumes "exec c g = Inr (h, g')"
  shows "\<exists>ns. nodes g' = nodes g @ ns"
  using exec_nodes [OF assms(1)]
  by (auto simp: appended_def)

lemma exec_interned_ok:
  assumes e: "exec c g = Inr (h, g')" and ok: "interned_ok g"
  shows "interned_ok g'"
proof -
  from exec_prefix [OF e] obtain ns where ns: "nodes g' = nodes g @ ns" ..
  have keep: "\<exists>i<length (nodes g'). k = of_nat i \<and> node_variant (nodes g' ! i) = v"
    if "\<exists>i<length (nodes g). k = of_nat i \<and> node_variant (nodes g ! i) = v" for k :: ast_id and v
  proof -
    from that obtain i where i: "i < length (nodes g)" "k = of_nat i" "node_variant (nodes g ! i) = v"
      by blast
    then have "i < length (nodes g') \<and> k = of_nat i \<and> node_variant (nodes g' ! i) = v"
      by (simp add: ns nth_append)
    then show ?thesis by blast
  qed
  have fresh: "\<exists>i<length (nodes g'). h = of_nat i \<and> node_variant (nodes g' ! i) = node_variant n"
    if "appended g h n g'" for n
  proof -
    from that have "length (nodes g) < length (nodes g') \<and> h = of_nat (length (nodes g)) \<and>
        node_variant (nodes g' ! length (nodes g)) = node_variant n"
      by (simp add: appended_def)
    then show ?thesis by blast
  qed
  have a: "\<exists>i<length (nodes g'). k = of_nat i \<and> node_variant (nodes g' ! i) = V_identifier s"
    if "identifier_hash g' s = Some k" for s k
    using exec_identifier_hash [OF e, of s] that ok fresh keep
    by (fastforce simp: interned_ok_def split: if_splits)
  have b: "\<exists>i<length (nodes g'). k = of_nat i \<and> node_variant (nodes g' ! i) = V_arithmetic_identifier s"
    if "arithmetic_identifier_hash g' s = Some k" for s k
    using exec_arithmetic_identifier_hash [OF e, of s] that ok fresh keep
    by (fastforce simp: interned_ok_def split: if_splits)
  show ?thesis unfolding interned_ok_def using a b by blast
qed

lemma exec_children_below:
  assumes e: "exec c g = Inr (h, g')" and ok: "children_below g"
    and known: "list_all (\<lambda>h. unat h < length (nodes g)) (child_args c)"
  shows "children_below g'"
proof -
  from exec_nodes [OF e] show ?thesis
  proof
    assume "g' = g" with ok show ?thesis by simp
  next
    assume "\<exists>n. appended g h n g' \<and> shape_ok n"
    then obtain n where n: "appended g h n g'" by blast
    have new: "\<forall>c\<in>set (node_children n). unat c < length (nodes g)"
      using exec_children [OF e n] known ok
      by (fastforce simp: list_all_iff children_below_def)
    show ?thesis
      unfolding children_below_def
    proof (intro allI impI ballI)
      fix i ch assume i: "i < length (nodes g')" and ch: "ch \<in> set (node_children (nodes g' ! i))"
      show "unat ch < i"
      proof (cases "i < length (nodes g)")
        case True
        with ch n ok show ?thesis by (auto simp: appended_def nth_append children_below_def)
      next
        case False
        with i n have "i = length (nodes g)" by (auto simp: appended_def)
        with ch n new show ?thesis by (auto simp: appended_def)
      qed
    qed
  qed
qed

lemma run_invariant:
  assumes step: "\<And>c g h g'. P g \<Longrightarrow> exec c g = Inr (h, g') \<Longrightarrow> P g'"
  shows "P g \<Longrightarrow> run cs g = Inr g' \<Longrightarrow> P g'"
proof (induction cs arbitrary: g)
  case Nil
  then show ?case by simp
next
  case (Cons c cs)
  from Cons.prems(2) obtain h g1 where e: "exec c g = Inr (h, g1)" and r: "run cs g1 = Inr g'"
    by (auto split: sum.splits)
  from step [OF Cons.prems(1) e] have "P g1" .
  from Cons.IH [OF this r] show ?case .
qed

lemma run_ids_dense: "ids_dense g \<Longrightarrow> run cs g = Inr g' \<Longrightarrow> ids_dense g'"
  by (rule run_invariant [where P = ids_dense]) (rule exec_ids_dense)

lemma run_shapes_ok: "shapes_ok g \<Longrightarrow> run cs g = Inr g' \<Longrightarrow> shapes_ok g'"
  by (rule run_invariant [where P = shapes_ok]) (rule exec_shapes_ok)

lemma run_interned_ok: "interned_ok g \<Longrightarrow> run cs g = Inr g' \<Longrightarrow> interned_ok g'"
  by (rule run_invariant [where P = interned_ok]) (rule exec_interned_ok)

lemma run_children_below:
  "children_below g \<Longrightarrow> handles_known cs g \<Longrightarrow> run cs g = Inr g' \<Longrightarrow> children_below g'"
proof (induction cs arbitrary: g)
  case Nil
  then show ?case by simp
next
  case (Cons c cs)
  from Cons.prems(3) obtain h g1 where e: "exec c g = Inr (h, g1)" and r: "run cs g1 = Inr g'"
    by (auto split: sum.splits)
  from Cons.prems(2) e have k: "list_all (\<lambda>h. unat h < length (nodes g)) (child_args c)"
    and k1: "handles_known cs g1" by simp_all
  from exec_children_below [OF e Cons.prems(1) k] have "children_below g1" .
  from Cons.IH [OF this k1 r] show ?case .
qed

lemma empty_graph_invariants:
  "ids_dense empty_graph" "shapes_ok empty_graph" "interned_ok empty_graph" "children_below empty_graph"
  by (simp_all add: ids_dense_def shapes_ok_def interned_ok_def children_below_def empty_graph_def)

lemma run_append:
  "run (cs @ ds) g = (case run cs g of Inl e \<Rightarrow> Inl e | Inr g' \<Rightarrow> run ds g')"
  by (induction cs arbitrary: g) (auto split: sum.splits)

lemma exec_not_identifier_call:
  assumes "exec c g = Inr (h, g')" and "\<not> is_identifier_call c"
  shows "length (nodes g') = Suc (length (nodes g))"
  using assms
  by (cases c)
     (auto simp: plain_create_defs adapter_defs create_node_def is_identifier_call_def Let_def
      split: if_splits sum.splits prod.splits)

lemma exec_identifier_call_size:
  assumes e: "exec (Create_identifier s) g = Inr (h, g')"
  shows "length (nodes g') = (if identifier_hash g s = None then Suc (length (nodes g)) else length (nodes g))"
  using exec_identifier_hash [OF e, of s] by (auto simp: appended_def)

lemma exec_arithmetic_identifier_call_size:
  assumes e: "exec (Create_arithmetic_identifier s) g = Inr (h, g')"
  shows "length (nodes g') = (if arithmetic_identifier_hash g s = None then Suc (length (nodes g)) else length (nodes g))"
  using exec_arithmetic_identifier_hash [OF e, of s] by (auto simp: appended_def)

lemma exec_keys_ok:
  assumes e: "exec c g = Inr (h, g')" and ok: "keys_ok cs g"
  shows "keys_ok (cs @ [c]) g'"
proof -
  have a: "identifier_hash g' s \<noteq> None \<longleftrightarrow> Create_identifier s \<in> set (cs @ [c])" for s
    using exec_identifier_hash [OF e, of s] ok by (auto simp: keys_ok_def)
  have b: "arithmetic_identifier_hash g' s \<noteq> None \<longleftrightarrow> Create_arithmetic_identifier s \<in> set (cs @ [c])" for s
    using exec_arithmetic_identifier_hash [OF e, of s] ok by (auto simp: keys_ok_def)
  show ?thesis unfolding keys_ok_def using a b by blast
qed

lemma nodes_created_snoc:
  "nodes_created (cs @ [c]) =
     (if is_identifier_call c \<and> c \<in> set cs then nodes_created cs else Suc (nodes_created cs))"
proof -
  have "length (remdups (xs @ [x])) = (if x \<in> set xs then length (remdups xs) else Suc (length (remdups xs)))"
    for xs :: "call list" and x
    by (simp add: length_remdups_card_conv insert_absorb)
  then show ?thesis by (auto simp: nodes_created_def)
qed

lemma run_count:
  "run cs empty_graph = Inr g \<Longrightarrow> keys_ok cs g \<and> length (nodes g) = nodes_created cs"
proof (induction cs arbitrary: g rule: rev_induct)
  case Nil
  then have "g = empty_graph" by simp
  then show ?case by (simp add: keys_ok_def empty_graph_def nodes_created_def)
next
  case (snoc c cs)
  from snoc.prems obtain g0 h where r: "run cs empty_graph = Inr g0" and e: "exec c g0 = Inr (h, g)"
    by (auto simp: run_append split: sum.splits)
  from snoc.IH [OF r] have k: "keys_ok cs g0" and n: "length (nodes g0) = nodes_created cs" by simp_all
  have "length (nodes g) = nodes_created (cs @ [c])"
  proof (cases "is_identifier_call c")
    case False
    with exec_not_identifier_call [OF e] n show ?thesis by (simp add: nodes_created_snoc)
  next
    case True
    then consider s where "c = Create_identifier s" | s where "c = Create_arithmetic_identifier s"
      by (cases c) (auto simp: is_identifier_call_def)
    then show ?thesis
    proof cases
      case 1
      from k have "identifier_hash g0 s = None \<longleftrightarrow> Create_identifier s \<notin> set cs"
        unfolding keys_ok_def by blast
      with 1 e exec_identifier_call_size [of s g0 h g] n True show ?thesis
        by (simp add: nodes_created_snoc)
    next
      case 2
      from k have "arithmetic_identifier_hash g0 s = None \<longleftrightarrow> Create_arithmetic_identifier s \<notin> set cs"
        unfolding keys_ok_def by blast
      with 2 e exec_arithmetic_identifier_call_size [of s g0 h g] n True show ?thesis
        by (simp add: nodes_created_snoc)
    qed
  qed
  with exec_keys_ok [OF e k] show ?case by simp
qed

subsection \<open>Sequences of calls from the empty graph\<close>

lemma run_reachable:
  assumes "run cs empty_graph = Inr g"
  shows "ids_dense g" "shapes_ok g" "interned_ok g"
  using assms empty_graph_invariants run_ids_dense run_shapes_ok run_interned_ok by blast+

lemma nodes_created_le: "nodes_created cs \<le> length cs"
proof -
  have a: "length (remdups (filter is_identifier_call cs)) \<le> length (filter is_identifier_call cs)"
    by (rule length_remdups_leq)
  have b: "length (filter is_identifier_call cs) + length (filter (\<lambda>c. \<not> is_identifier_call c) cs) = length cs"
    by (rule sum_length_filter_compl)
  show ?thesis unfolding nodes_created_def using a b by linarith
qed

lemma run_identifier_hash_kept:
  "identifier_hash g s = Some h \<Longrightarrow> run cs g = Inr g' \<Longrightarrow> identifier_hash g' s = Some h"
proof (rule run_invariant [where P = "\<lambda>g. identifier_hash g s = Some h"])
  fix c g k g'
  assume "identifier_hash g s = Some h" and "exec c g = Inr (k, g')"
  then show "identifier_hash g' s = Some h"
    using exec_identifier_hash [of c g k g' s] by auto
qed

lemma run_arithmetic_identifier_hash_kept:
  "arithmetic_identifier_hash g s = Some h \<Longrightarrow> run cs g = Inr g' \<Longrightarrow>
   arithmetic_identifier_hash g' s = Some h"
proof (rule run_invariant [where P = "\<lambda>g. arithmetic_identifier_hash g s = Some h"])
  fix c g k g'
  assume "arithmetic_identifier_hash g s = Some h" and "exec c g = Inr (k, g')"
  then show "arithmetic_identifier_hash g' s = Some h"
    using exec_arithmetic_identifier_hash [of c g k g' s] by auto
qed

lemma create_identifier_facts:
  assumes r: "run cs empty_graph = Inr g" and c: "create_identifier s g = (h, g1)"
  shows "Create_identifier s \<notin> set cs \<Longrightarrow> length (nodes g1) = length (nodes g) + 1"
    and "Create_identifier s \<in> set cs \<Longrightarrow> g1 = g"
    and "identifier_hash g1 s = Some h"
    and "run (cs @ [Create_identifier s]) empty_graph = Inr g1"
proof -
  from c have e: "exec (Create_identifier s) g = Inr (h, g1)" by simp
  from run_count [OF r] have k: "identifier_hash g s = None \<longleftrightarrow> Create_identifier s \<notin> set cs"
    unfolding keys_ok_def by blast
  show "length (nodes g1) = length (nodes g) + 1" if "Create_identifier s \<notin> set cs"
    using exec_identifier_call_size [OF e] k that by simp
  show "g1 = g" if "Create_identifier s \<in> set cs"
    using exec_identifier_hash [OF e, of s] k that by auto
  show "identifier_hash g1 s = Some h"
    using exec_identifier_hash [OF e, of s] by auto
  show "run (cs @ [Create_identifier s]) empty_graph = Inr g1"
    using r c by (simp add: run_append)
qed

lemma create_arithmetic_identifier_facts:
  assumes r: "run cs empty_graph = Inr g" and c: "create_arithmetic_identifier s g = (h, g1)"
  shows "Create_arithmetic_identifier s \<notin> set cs \<Longrightarrow> length (nodes g1) = length (nodes g) + 1"
    and "Create_arithmetic_identifier s \<in> set cs \<Longrightarrow> g1 = g"
    and "arithmetic_identifier_hash g1 s = Some h"
    and "run (cs @ [Create_arithmetic_identifier s]) empty_graph = Inr g1"
proof -
  from c have e: "exec (Create_arithmetic_identifier s) g = Inr (h, g1)" by simp
  from run_count [OF r] have k: "arithmetic_identifier_hash g s = None \<longleftrightarrow> Create_arithmetic_identifier s \<notin> set cs"
    unfolding keys_ok_def by blast
  show "length (nodes g1) = length (nodes g) + 1" if "Create_arithmetic_identifier s \<notin> set cs"
    using exec_arithmetic_identifier_call_size [OF e] k that by simp
  show "g1 = g" if "Create_arithmetic_identifier s \<in> set cs"
    using exec_arithmetic_identifier_hash [OF e, of s] k that by auto
  show "arithmetic_identifier_hash g1 s = Some h"
    using exec_arithmetic_identifier_hash [OF e, of s] by auto
  show "run (cs @ [Create_arithmetic_identifier s]) empty_graph = Inr g1"
    using r c by (simp add: run_append)
qed

lemma pools_disjoint:
  assumes ok: "interned_ok g" and size: "length (nodes g) \<le> 2 ^ 32"
    and a: "identifier_hash g s = Some h" and b: "arithmetic_identifier_hash g s = Some k"
  shows "h \<noteq> k"
proof
  assume eq: "h = k"
  from ok a obtain i where i: "i < length (nodes g)" "h = of_nat i"
    "node_variant (nodes g ! i) = V_identifier s" unfolding interned_ok_def by blast
  from ok b obtain j where j: "j < length (nodes g)" "k = of_nat j"
    "node_variant (nodes g ! j) = V_arithmetic_identifier s" unfolding interned_ok_def by blast
  from i(1) j(1) size have "i < 2 ^ 32" "j < 2 ^ 32" by simp_all
  then have "unat (of_nat i :: ast_id) = i" "unat (of_nat j :: ast_id) = j"
    by (simp_all add: unat_of_nat)
  with eq i(2) j(2) have "i = j" by metis
  with i(3) j(3) show False by simp
qed

subsection \<open>The marker bit\<close>

lemma mask31: "(0x7FFFFFFF :: 32 word) = mask 31"
  by (simp add: mask_eq_exp_minus_1)

lemma marker_then_payload:
  fixes h :: "32 word"
  assumes "h < 0x80000000"
  shows "(h OR 0x80000000) AND 0x7FFFFFFF = h"
proof -
  from assms have "h < 2 ^ 31" by simp
  then have a: "h AND mask 31 = h" by (rule less_mask_eq)
  have z: "(0x80000000 :: 32 word) AND 0x7FFFFFFF = 0" by simp
  have "(h OR 0x80000000) AND 0x7FFFFFFF = (h AND 0x7FFFFFFF) OR (0x80000000 AND 0x7FFFFFFF)"
    by (rule bit.conj_disj_distrib2)
  also have "\<dots> = h" using a unfolding z by (simp add: mask31)
  finally show ?thesis .
qed

lemma payload_and_marker: "(v :: 32 word) = (v AND 0x7FFFFFFF) OR (v AND 0x80000000)"
proof -
  have e: "(0x7FFFFFFF :: 32 word) OR 0x80000000 = - 1" by simp
  have "v AND (0x7FFFFFFF OR 0x80000000) = v" unfolding e by simp
  then show ?thesis by (simp only: bit.conj_disj_distrib)
qed

lemma marker_only:
  fixes w :: "32 word"
  assumes "w AND 0x80000000 \<noteq> 0"
  shows "w AND 0x80000000 = 0x80000000"
proof -
  let ?m = "w AND 0x80000000"
  have le: "?m \<le> 0x80000000" by (rule word_and_le1)
  have z: "?m AND 0x7FFFFFFF = 0" by (simp add: and.assoc)
  have "\<not> ?m < 0x80000000"
  proof
    assume "?m < 0x80000000"
    then have "?m < 2 ^ 31" by simp
    then have "?m AND mask 31 = ?m" by (rule less_mask_eq)
    with z have "?m = 0" by (simp add: mask31)
    with assms show False by simp
  qed
  with le show ?thesis by simp
qed

subsection \<open>The adapter constructors\<close>

lemma adapter_unfold:
  assumes "unat i < length (nodes g)"
  shows "create_input_declaration i g =
           (if is_identifier_list (nodes g ! unat i)
            then Inr (create_node (\<lambda>k. ast_input_declaration k (identifiers (nodes g ! unat i))) g)
            else if is_identifier (nodes g ! unat i)
            then Inr (create_node (\<lambda>k. ast_input_declaration k [i]) g)
            else Inl Aborted)"
    and "create_output_declaration i g =
           (if is_identifier_list (nodes g ! unat i)
            then Inr (create_node (\<lambda>k. ast_output_declaration k (identifiers (nodes g ! unat i))) g)
            else if is_identifier (nodes g ! unat i)
            then Inr (create_node (\<lambda>k. ast_output_declaration k [i]) g)
            else Inl Aborted)"
    and "create_wire_declaration i g =
           (if is_identifier_list (nodes g ! unat i)
            then Inr (create_node (\<lambda>k. ast_wire_declaration k (identifiers (nodes g ! unat i))) g)
            else if is_identifier (nodes g ! unat i)
            then Inr (create_node (\<lambda>k. ast_wire_declaration k [i]) g)
            else Inl Aborted)"
  using assms by (simp_all add: adapter_defs Let_def)

lemma create_node_result:
  "create_node mk g = (of_nat (length (nodes g)), g\<lparr>nodes := nodes g @ [mk (of_nat (length (nodes g)))]\<rparr>)"
  by (simp add: create_node_def Let_def)

lemma node_ptr_new:
  assumes "length (nodes g) < 2 ^ 32" and "nodes g' = nodes g @ [n]"
  shows "node_ptr g' (of_nat (length (nodes g))) = Inr n"
proof -
  from assms(1) have "unat (of_nat (length (nodes g)) :: ast_id) = length (nodes g)"
    by (simp add: unat_of_nat)
  with assms(2) show ?thesis by (simp add: node_ptr_def)
qed

lemma adapter_range_unfold:
  assumes "unat i < length (nodes g)" and "unat rid < length (nodes g)"
  shows "create_input_declaration_range i rid g =
           (if is_identifier_list (nodes g ! unat i)
            then (case range_of (nodes g ! unat rid) of Inl e \<Rightarrow> Inl e
                  | Inr (hi, lo) \<Rightarrow> Inr (create_node (\<lambda>k. ast_input_declaration_range k (identifiers (nodes g ! unat i)) hi lo) g))
            else if is_identifier (nodes g ! unat i)
            then (case range_of (nodes g ! unat rid) of Inl e \<Rightarrow> Inl e
                  | Inr (hi, lo) \<Rightarrow> Inr (create_node (\<lambda>k. ast_input_declaration_range k [i] hi lo) g))
            else Inl Aborted)"
    and "create_output_declaration_range i rid g =
           (if is_identifier_list (nodes g ! unat i)
            then (case range_of (nodes g ! unat rid) of Inl e \<Rightarrow> Inl e
                  | Inr (hi, lo) \<Rightarrow> Inr (create_node (\<lambda>k. ast_output_declaration_range k (identifiers (nodes g ! unat i)) hi lo) g))
            else if is_identifier (nodes g ! unat i)
            then (case range_of (nodes g ! unat rid) of Inl e \<Rightarrow> Inl e
                  | Inr (hi, lo) \<Rightarrow> Inr (create_node (\<lambda>k. ast_output_declaration_range k [i] hi lo) g))
            else Inl Aborted)"
    and "create_wire_declaration_range i rid g =
           (if is_identifier_list (nodes g ! unat i)
            then (case range_of (nodes g ! unat rid) of Inl e \<Rightarrow> Inl e
                  | Inr (hi, lo) \<Rightarrow> Inr (create_node (\<lambda>k. ast_wire_declaration_range k (identifiers (nodes g ! unat i)) hi lo) g))
            else if is_identifier (nodes g ! unat i)
            then (case range_of (nodes g ! unat rid) of Inl e \<Rightarrow> Inl e
                  | Inr (hi, lo) \<Rightarrow> Inr (create_node (\<lambda>k. ast_wire_declaration_range k [i] hi lo) g))
            else Inl Aborted)"
  using assms by (simp_all add: adapter_defs Let_def)

lemma range_of_two_children:
  assumes "node_children r = hi # lo # rest"
  shows "range_hi r = Inr hi" and "range_lo r = Inr lo" and "range_of r = Inr (hi, lo)"
  using assms by (simp_all add: range_of_def range_hi_def range_lo_def child_at_def)

lemma range_of_few_children:
  assumes "length (node_children r) < 2"
  shows "range_of r = Inl Undefined"
  using assms
  by (auto simp: range_of_def range_hi_def range_lo_def child_at_def split: sum.splits)

lemma word_level_accessors:
  "word_level (word_level_fields hi lo)" "decl_hi (word_level_fields hi lo) = Inr hi"
  "decl_lo (word_level_fields hi lo) = Inr lo" "\<not> word_level bit_level_fields"
  "bit_level bit_level_fields"
  by (simp_all add: word_level_def bit_level_def decl_hi_def decl_lo_def word_level_fields_def
      bit_level_fields_def)

lemma range_adapter_returns:
  assumes a: "(create, create_range, declaration) \<in>
             {(create_input_declaration, create_input_declaration_range, V_input_declaration),
              (create_output_declaration, create_output_declaration_range, V_output_declaration),
              (create_wire_declaration, create_wire_declaration_range, V_wire_declaration)}"
    and i: "node_ptr g i = Inr src" and s: "is_identifier_list src \<or> is_identifier src"
    and rid: "node_ptr g rid = Inr r" and ch: "node_children r = hi # lo # rest"
  shows "\<exists>h g' n d. create_range i rid g = Inr (h, g') \<and> nodes g' = nodes g @ [n] \<and>
           node_id n = h \<and> node_variant n = declaration d \<and> word_level d \<and>
           decl_hi d = Inr hi \<and> decl_lo d = Inr lo \<and>
           identifiers n = (if is_identifier_list src then identifiers src else [i]) \<and>
           (length (nodes g) < 2 ^ 32 \<longrightarrow> node_ptr g' h = Inr n)"
proof -
  from i have i': "unat i < length (nodes g)" and src: "src = nodes g ! unat i"
    by (auto simp: node_ptr_def split: if_splits)
  from rid have r': "unat rid < length (nodes g)" and r: "r = nodes g ! unat rid"
    by (auto simp: node_ptr_def split: if_splits)
  let ?h = "of_nat (length (nodes g)) :: ast_id"
  let ?ids = "if is_identifier_list src then identifiers src else [i]"
  let ?n = "\<lparr>node_id = ?h, node_children = ?ids, node_variant = declaration (word_level_fields hi lo)\<rparr>"
  let ?g' = "g\<lparr>nodes := nodes g @ [?n]\<rparr>"
  from range_of_two_children(3) [OF ch] r have ro: "range_of (nodes g ! unat rid) = Inr (hi, lo)"
    by simp
  have c: "create_range i rid g = Inr (?h, ?g')"
    using a s src
    by (auto simp: adapter_range_unfold [OF i' r'] ro create_node_result
        ast_input_declaration_range_def ast_output_declaration_range_def
        ast_wire_declaration_range_def ast_node_with_def)
  have p: "length (nodes g) < 2 ^ 32 \<longrightarrow> node_ptr ?g' ?h = Inr ?n"
    by (auto intro!: node_ptr_new)
  have "create_range i rid g = Inr (?h, ?g') \<and> nodes ?g' = nodes g @ [?n] \<and>
           node_id ?n = ?h \<and> node_variant ?n = declaration (word_level_fields hi lo) \<and>
           word_level (word_level_fields hi lo) \<and>
           decl_hi (word_level_fields hi lo) = Inr hi \<and> decl_lo (word_level_fields hi lo) = Inr lo \<and>
           identifiers ?n = ?ids \<and>
           (length (nodes g) < 2 ^ 32 \<longrightarrow> node_ptr ?g' ?h = Inr ?n)"
    using c p by (simp add: identifiers_def word_level_accessors)
  then show ?thesis by blast
qed

lemma bit_adapter_returns:
  assumes "(create, declaration) \<in>
             {(create_input_declaration, V_input_declaration),
              (create_output_declaration, V_output_declaration),
              (create_wire_declaration, V_wire_declaration)}"
    and "node_ptr g i = Inr src"
    and "is_identifier_list src \<or> is_identifier src"
  shows "\<exists>h g' n d. create i g = Inr (h, g') \<and> nodes g' = nodes g @ [n] \<and> node_id n = h \<and>
           node_variant n = declaration d \<and> \<not> word_level d \<and>
           identifiers n = (if is_identifier_list src then identifiers src else [i]) \<and>
           (length (nodes g) < 2 ^ 32 \<longrightarrow> node_ptr g' h = Inr n)"
proof -
  from assms(2) have i: "unat i < length (nodes g)" and src: "src = nodes g ! unat i"
    by (auto simp: node_ptr_def split: if_splits)
  let ?h = "of_nat (length (nodes g)) :: ast_id"
  let ?ids = "if is_identifier_list src then identifiers src else [i]"
  let ?n = "\<lparr>node_id = ?h, node_children = ?ids, node_variant = declaration bit_level_fields\<rparr>"
  let ?g' = "g\<lparr>nodes := nodes g @ [?n]\<rparr>"
  have c: "create i g = Inr (?h, ?g')"
    using assms(1,3) src
    by (auto simp: adapter_unfold [OF i] create_node_result ast_input_declaration_def
        ast_output_declaration_def ast_wire_declaration_def ast_node_with_def)
  have p: "length (nodes g) < 2 ^ 32 \<longrightarrow> node_ptr ?g' ?h = Inr ?n"
    by (auto intro!: node_ptr_new)
  have "create i g = Inr (?h, ?g') \<and> nodes ?g' = nodes g @ [?n] \<and> node_id ?n = ?h \<and>
           node_variant ?n = declaration bit_level_fields \<and> \<not> word_level bit_level_fields \<and>
           identifiers ?n = ?ids \<and>
           (length (nodes g) < 2 ^ 32 \<longrightarrow> node_ptr ?g' ?h = Inr ?n)"
    using c p by (simp add: identifiers_def word_level_accessors)
  then show ?thesis by blast
qed

lemma range_expression_children:
  assumes "run cs empty_graph = Inr g" and "node_ptr g rid = Inr r" and "is_range_expression r"
  shows "\<exists>hi lo. node_children r = [hi, lo]"
proof -
  from assms(2) have "r \<in> set (nodes g)" by (auto simp: node_ptr_def split: if_splits)
  with run_reachable(2) [OF assms(1)] have "shape_ok r" by (simp add: shapes_ok_def)
  with assms(3) have "length (node_children r) = 2"
    by (auto simp: shape_ok_def is_range_expression_def split: ast_variant.splits)
  then show ?thesis by (auto simp: length_Suc_conv numeral_2_eq_2)
qed

subsection \<open>The example graphs\<close>

lemma example_graph_run: "run example_calls empty_graph = Inr example_graph"
  by (simp add: example_calls_def example_graph_def plain_create_defs intern_defs
        create_node_def empty_graph_def)

lemma example_nodes:
  "node_ptr example_graph 0 = Inr (ast_identifier 0 ''a'')"
  "node_ptr example_graph 3 = Inr (ast_identifier_list 3 [0, 1, 2])"
  "node_ptr example_graph 4 = Inr (ast_numeral 4 ''7'')"
  "node_ptr example_graph 6 = Inr (ast_range_expression 6 4 5)"
  "node_ptr example_graph 7 = Inr (ast_array_select 7 0 5)"
  by (simp_all add: node_ptr_def example_graph_def)

lemma example_classes:
  "is_identifier (ast_identifier 0 ''a'')" "\<not> is_identifier_list (ast_identifier 0 ''a'')"
  "is_identifier_list (ast_identifier_list 3 [0, 1, 2])"
  "\<not> is_identifier (ast_numeral 4 ''7'')" "\<not> is_identifier_list (ast_numeral 4 ''7'')"
  "is_range_expression (ast_range_expression 6 4 5)"
  "\<not> is_range_expression (ast_array_select 7 0 5)"
  "\<not> is_range_expression (ast_numeral 4 ''7'')"
  by (simp_all add: is_identifier_def is_identifier_list_def is_range_expression_def node_defs)

lemma example_children:
  "identifiers (ast_identifier_list 3 [0, 1, 2]) = [0, 1, 2]"
  "node_children (ast_range_expression 6 4 5) = [4, 5]"
  "node_children (ast_array_select 7 0 5) = [0, 5]"
  "length (node_children (ast_numeral 4 ''7'')) < 2"
  by (simp_all add: identifiers_def node_defs)

lemma interning_example:
  "run [Create_numeral ''7''] empty_graph = Inr numeral_graph"
  "create_identifier ''n'' numeral_graph = (1, identifier_graph)"
  "create_arithmetic_identifier ''n'' identifier_graph = (2, both_pools_graph)"
  "run [Create_numeral ''7'', Create_identifier ''n'', Create_arithmetic_identifier ''n''] empty_graph =
     Inr both_pools_graph"
  "create_identifier ''n'' both_pools_graph = (1, both_pools_graph)"
  "create_arithmetic_identifier ''n'' both_pools_graph = (2, both_pools_graph)"
  "run [] identifier_graph = Inr identifier_graph"
  "run [] both_pools_graph = Inr both_pools_graph"
  by (simp_all add: numeral_graph_def identifier_graph_def both_pools_graph_def
      plain_create_defs intern_defs create_node_def empty_graph_def)

lemma example_module_graph:
  "run [Create_identifier ''a'', Create_identifier ''b'', Create_module ''m'' [0, 1] [],
        Create_module_instantiation 0 1 [(0, 1)] [1]] empty_graph =
   Inr \<lparr>nodes = [ast_identifier 0 ''a'', ast_identifier 1 ''b'', ast_module 2 ''m'' [0, 1] [],
                 ast_module_instantiation 3 0 1 [(0, 1)] [1]],
        identifier_hash = [''a'' \<mapsto> 0, ''b'' \<mapsto> 1],
        arithmetic_identifier_hash = Map.empty\<rparr>"
  by (simp add: plain_create_defs intern_defs create_node_def empty_graph_def)

lemma example_shared_identifier:
  "run [Create_identifier ''x'', Create_identifier ''x''] empty_graph =
   Inr \<lparr>nodes = [ast_identifier 0 ''x''], identifier_hash = [''x'' \<mapsto> 0],
        arithmetic_identifier_hash = Map.empty\<rparr>"
  by (simp add: plain_create_defs intern_defs create_node_def empty_graph_def)

lemma example_expression_graph:
  "run [Create_identifier ''a'', Create_identifier ''b'', Create_and_expression 0 1] empty_graph =
   Inr \<lparr>nodes = [ast_identifier 0 ''a'', ast_identifier 1 ''b'', ast_expression2 2 EXPR_AND 0 1],
        identifier_hash = [''a'' \<mapsto> 0, ''b'' \<mapsto> 1],
        arithmetic_identifier_hash = Map.empty\<rparr>"
  by (simp add: plain_create_defs intern_defs create_node_def empty_graph_def)

section \<open>The claims\<close>

text \<open>
  C1. Interning. Let \<open>g\<close> be any arena built from the empty graph by successful calls \<open>cs\<close>,
  let \<open>create_identifier s\<close> return \<open>h\<close> there, and, after any further successful calls
  \<open>ds\<close>, let \<open>create_arithmetic_identifier s\<close> return \<open>k\<close>, followed by any successful calls
  \<open>es\<close>. The first call with \<open>s\<close> (none among \<open>cs\<close>) grows the arena by exactly one node, a
  later one leaves the graph as it is, and every repetition, directly or after other
  calls, returns \<open>h\<close> again and changes nothing; the same holds for
  \<open>create_arithmetic_identifier\<close> and \<open>k\<close>. The two handles differ, in whichever order the
  two pools first saw \<open>s\<close> (\<open>cs\<close> may contain either call), as long as the arena holds at
  most \<open>2^32\<close> nodes, the number of handles there are.
\<close>

theorem interning:
  assumes "run cs empty_graph = Inr g"
    and "create_identifier s g = (h, g1)" and "run ds g1 = Inr g2"
    and "create_arithmetic_identifier s g2 = (k, g3)" and "run es g3 = Inr g4"
  shows "(Create_identifier s \<notin> set cs \<longrightarrow> length (nodes g1) = length (nodes g) + 1) \<and>
         (Create_identifier s \<in> set cs \<longrightarrow> g1 = g) \<and>
         create_identifier s g1 = (h, g1) \<and> create_identifier s g2 = (h, g2) \<and>
         create_identifier s g4 = (h, g4) \<and>
         (Create_arithmetic_identifier s \<notin> set (cs @ ds) \<longrightarrow>
            length (nodes g3) = length (nodes g2) + 1) \<and>
         (Create_arithmetic_identifier s \<in> set (cs @ ds) \<longrightarrow> g3 = g2) \<and>
         create_arithmetic_identifier s g3 = (k, g3) \<and>
         create_arithmetic_identifier s g4 = (k, g4) \<and>
         (length (nodes g3) \<le> 2 ^ 32 \<longrightarrow> h \<noteq> k)"
proof -
  note i = create_identifier_facts [OF assms(1,2)]
  have r2: "run ((cs @ [Create_identifier s]) @ ds) empty_graph = Inr g2"
    unfolding run_append [of "cs @ [Create_identifier s]" ds] i(4) using assms(3) by simp
  note a = create_arithmetic_identifier_facts [OF r2 assms(4)]
  have h1: "identifier_hash g1 s = Some h" by (rule i(3))
  from run_identifier_hash_kept [OF h1 assms(3)] have h2: "identifier_hash g2 s = Some h" .
  from assms(4) have "exec (Create_arithmetic_identifier s) g2 = Inr (k, g3)" by simp
  then have "run [Create_arithmetic_identifier s] g2 = Inr g3" by simp
  from run_identifier_hash_kept [OF h2 this] have h3: "identifier_hash g3 s = Some h" .
  from run_identifier_hash_kept [OF h3 assms(5)] have h4: "identifier_hash g4 s = Some h" .
  have k3: "arithmetic_identifier_hash g3 s = Some k" by (rule a(3))
  from run_arithmetic_identifier_hash_kept [OF k3 assms(5)]
  have k4: "arithmetic_identifier_hash g4 s = Some k" .
  from run_reachable(3) [OF a(4)] have ok: "interned_ok g3" .
  have d: "h \<noteq> k" if "length (nodes g3) \<le> 2 ^ 32"
    using pools_disjoint [OF ok that h3 k3] .
  have m: "Create_arithmetic_identifier s \<in> set ((cs @ [Create_identifier s]) @ ds) \<longleftrightarrow>
      Create_arithmetic_identifier s \<in> set (cs @ ds)" by auto
  show ?thesis
    using i(1,2) a(1,2) h1 h2 h4 k3 k4 d unfolding m
    by (simp add: create_identifier_def create_arithmetic_identifier_def)
qed

theorem interning_witness:
  "length (nodes identifier_graph) = length (nodes numeral_graph) + 1 \<and>
   create_identifier ''n'' identifier_graph = (1, identifier_graph) \<and>
   create_identifier ''n'' both_pools_graph = (1, both_pools_graph) \<and>
   length (nodes both_pools_graph) = length (nodes identifier_graph) + 1 \<and>
   create_arithmetic_identifier ''n'' both_pools_graph = (2, both_pools_graph) \<and>
   (1 :: ast_id) \<noteq> 2"
proof -
  have a: "Create_identifier ''n'' \<notin> set [Create_numeral ''7'']"
    and b: "Create_arithmetic_identifier ''n'' \<notin> set ([Create_numeral ''7''] @ [])"
    and c: "length (nodes both_pools_graph) \<le> 2 ^ 32"
    by (simp_all add: both_pools_graph_def)
  note first = interning [OF interning_example(1,2,7,3,8)]
  note again = interning [OF interning_example(4,5,8,6,8)]
  from first a have 1: "length (nodes identifier_graph) = length (nodes numeral_graph) + 1" by blast
  from first b have 2: "length (nodes both_pools_graph) = length (nodes identifier_graph) + 1" by blast
  from first c have 3: "(1 :: ast_id) \<noteq> 2" by blast
  from first have 4: "create_identifier ''n'' identifier_graph = (1, identifier_graph)" by blast
  from again have 5: "create_identifier ''n'' both_pools_graph = (1, both_pools_graph)"
    and 6: "create_arithmetic_identifier ''n'' both_pools_graph = (2, both_pools_graph)"
    by blast+
  from 1 2 3 4 5 6 show ?thesis by (intro conjI)
qed

text \<open>
  C2. Declaration normalization. When the handle \<open>i\<close> names an identifier list, each of
  \<open>create_input_declaration\<close>, \<open>create_output_declaration\<close> and \<open>create_wire_declaration\<close>
  appends a declaration node of its class whose identifier vector is the list's vector
  (\<open>[a, b, c]\<close> for a list with these children); when \<open>i\<close> names a bare identifier, the
  vector is \<open>[i]\<close>. The call returns the handle that the new node carries, and that
  handle names the new node while the arena is within the range of handles.
\<close>

theorem declaration_normalization:
  assumes "(create, declaration) \<in>
             {(create_input_declaration, V_input_declaration),
              (create_output_declaration, V_output_declaration),
              (create_wire_declaration, V_wire_declaration)}"
    and "node_ptr g i = Inr src"
    and "is_identifier_list src \<or> is_identifier src"
  shows "\<exists>h g' n d. create i g = Inr (h, g') \<and> nodes g' = nodes g @ [n] \<and> node_id n = h \<and>
           node_variant n = declaration d \<and>
           identifiers n = (if is_identifier_list src then identifiers src else [i]) \<and>
           (length (nodes g) < 2 ^ 32 \<longrightarrow> node_ptr g' h = Inr n)"
proof -
  from bit_adapter_returns [OF assms] obtain h g' n d
    where "create i g = Inr (h, g')" "nodes g' = nodes g @ [n]" "node_id n = h"
      "node_variant n = declaration d"
      "identifiers n = (if is_identifier_list src then identifiers src else [i])"
      "length (nodes g) < 2 ^ 32 \<longrightarrow> node_ptr g' h = Inr n"
    by blast
  then show ?thesis by (intro exI conjI)
qed

theorem declaration_normalization_witness:
  "(\<exists>h g' n d. create_input_declaration 3 example_graph = Inr (h, g') \<and>
      nodes g' = nodes example_graph @ [n] \<and> node_id n = h \<and>
      node_variant n = V_input_declaration d \<and> identifiers n = [0, 1, 2] \<and> node_ptr g' h = Inr n) \<and>
   (\<exists>h g' n d. create_wire_declaration 0 example_graph = Inr (h, g') \<and>
      nodes g' = nodes example_graph @ [n] \<and> node_id n = h \<and>
      node_variant n = V_wire_declaration d \<and> identifiers n = [0] \<and> node_ptr g' h = Inr n)"
proof -
  have s: "length (nodes example_graph) < 2 ^ 32" by (simp add: example_graph_def)
  have a: "(create_input_declaration, V_input_declaration) \<in>
             {(create_input_declaration, V_input_declaration),
              (create_output_declaration, V_output_declaration),
              (create_wire_declaration, V_wire_declaration)}" by simp
  have b: "(create_wire_declaration, V_wire_declaration) \<in>
             {(create_input_declaration, V_input_declaration),
              (create_output_declaration, V_output_declaration),
              (create_wire_declaration, V_wire_declaration)}" by simp
  from declaration_normalization [OF a example_nodes(2) disjI1 [OF example_classes(3)]]
    declaration_normalization [OF b example_nodes(1) disjI2 [OF example_classes(1)]]
  show ?thesis
    using s by (simp add: example_classes example_children)
qed

text \<open>
  C3. Range lift. In an arena built from the empty graph, let \<open>i\<close> name an identifier or
  an identifier list and \<open>rid\<close> a range expression. Then the range expression has a \<open>hi\<close>
  and a \<open>lo\<close> child, and the two-argument adapter of each of the three declaration classes
  returns a new declaration of that class with \<open>word_level\<close> true whose \<open>hi()\<close> and \<open>lo()\<close>
  are those two children; the one-argument adapter returns a declaration with
  \<open>word_level\<close> false. Both carry the normalized identifier vector.
\<close>

theorem range_lift:
  assumes "(create, create_range, declaration) \<in>
             {(create_input_declaration, create_input_declaration_range, V_input_declaration),
              (create_output_declaration, create_output_declaration_range, V_output_declaration),
              (create_wire_declaration, create_wire_declaration_range, V_wire_declaration)}"
    and "run cs empty_graph = Inr g"
    and "node_ptr g i = Inr src" and "is_identifier_list src \<or> is_identifier src"
    and "node_ptr g rid = Inr r" and "is_range_expression r"
  shows "\<exists>hi lo. range_hi r = Inr hi \<and> range_lo r = Inr lo \<and>
           (\<exists>h g' n d. create_range i rid g = Inr (h, g') \<and> nodes g' = nodes g @ [n] \<and>
              node_id n = h \<and> node_variant n = declaration d \<and> word_level d \<and>
              decl_hi d = Inr hi \<and> decl_lo d = Inr lo \<and>
              identifiers n = (if is_identifier_list src then identifiers src else [i]) \<and>
              (length (nodes g) < 2 ^ 32 \<longrightarrow> node_ptr g' h = Inr n)) \<and>
           (\<exists>h g' n d. create i g = Inr (h, g') \<and> nodes g' = nodes g @ [n] \<and>
              node_id n = h \<and> node_variant n = declaration d \<and> \<not> word_level d \<and>
              identifiers n = (if is_identifier_list src then identifiers src else [i]) \<and>
              (length (nodes g) < 2 ^ 32 \<longrightarrow> node_ptr g' h = Inr n))"
proof -
  from range_expression_children [OF assms(2,5,6)] obtain hi lo
    where ch: "node_children r = hi # lo # []" by blast
  from assms(1) have b: "(create, declaration) \<in>
             {(create_input_declaration, V_input_declaration),
              (create_output_declaration, V_output_declaration),
              (create_wire_declaration, V_wire_declaration)}" by auto
  have "range_hi r = Inr hi \<and> range_lo r = Inr lo \<and>
           (\<exists>h g' n d. create_range i rid g = Inr (h, g') \<and> nodes g' = nodes g @ [n] \<and>
              node_id n = h \<and> node_variant n = declaration d \<and> word_level d \<and>
              decl_hi d = Inr hi \<and> decl_lo d = Inr lo \<and>
              identifiers n = (if is_identifier_list src then identifiers src else [i]) \<and>
              (length (nodes g) < 2 ^ 32 \<longrightarrow> node_ptr g' h = Inr n)) \<and>
           (\<exists>h g' n d. create i g = Inr (h, g') \<and> nodes g' = nodes g @ [n] \<and>
              node_id n = h \<and> node_variant n = declaration d \<and> \<not> word_level d \<and>
              identifiers n = (if is_identifier_list src then identifiers src else [i]) \<and>
              (length (nodes g) < 2 ^ 32 \<longrightarrow> node_ptr g' h = Inr n))" (is "?P hi lo")
    by (intro conjI)
      (rule range_of_two_children(1,2) [OF ch] range_adapter_returns [OF assms(1,3,4,5) ch]
        bit_adapter_returns [OF b assms(3,4)])+
  then show ?thesis by (intro exI [of _ hi] exI [of _ lo])
qed

theorem range_lift_witness:
  "range_hi (ast_range_expression 6 4 5) = Inr 4 \<and> range_lo (ast_range_expression 6 4 5) = Inr 5 \<and>
   (\<exists>h g' n d. create_wire_declaration_range 0 6 example_graph = Inr (h, g') \<and>
      nodes g' = nodes example_graph @ [n] \<and> node_id n = h \<and> node_variant n = V_wire_declaration d \<and>
      word_level d \<and> decl_hi d = Inr 4 \<and> decl_lo d = Inr 5 \<and> identifiers n = [0] \<and>
      node_ptr g' h = Inr n) \<and>
   (\<exists>h g' n d. create_wire_declaration 0 example_graph = Inr (h, g') \<and>
      nodes g' = nodes example_graph @ [n] \<and> node_id n = h \<and> node_variant n = V_wire_declaration d \<and>
      \<not> word_level d \<and> identifiers n = [0] \<and> node_ptr g' h = Inr n)"
proof -
  have s: "length (nodes example_graph) < 2 ^ 32" by (simp add: example_graph_def)
  have a: "(create_wire_declaration, create_wire_declaration_range, V_wire_declaration) \<in>
             {(create_input_declaration, create_input_declaration_range, V_input_declaration),
              (create_output_declaration, create_output_declaration_range, V_output_declaration),
              (create_wire_declaration, create_wire_declaration_range, V_wire_declaration)}" by simp
  have r: "range_hi (ast_range_expression 6 4 5) = Inr 4" "range_lo (ast_range_expression 6 4 5) = Inr 5"
    by (simp_all add: range_of_two_children example_children)
  from range_lift [OF a example_graph_run example_nodes(1) disjI2 [OF example_classes(1)]
      example_nodes(4) example_classes(6)]
  show ?thesis
    using s by (simp add: example_classes r)
qed

text \<open>
  C4, as the code has it. Let \<open>i\<close> and \<open>rid\<close> name nodes of the arena. When the node of \<open>i\<close>
  is neither an identifier nor an identifier list, the one-argument and the two-argument
  adapter of every declaration class end in \<open>std::abort()\<close>. The class of the node of \<open>rid\<close>
  is never tested (\<open>static_cast\<close>): with an identifier or identifier list at \<open>i\<close>, the
  two-argument adapter returns a word-level declaration whose \<open>hi\<close> and \<open>lo\<close> are the first two
  children of the node of \<open>rid\<close>, whatever its class, and when that node has fewer than two
  children the read of \<open>children_[0]\<close> or \<open>children_[1]\<close> is outside the vector, which is
  undefined behaviour and not an abort.
\<close>

theorem adapter_precondition:
  assumes "(create, create_range, declaration) \<in>
             {(create_input_declaration, create_input_declaration_range, V_input_declaration),
              (create_output_declaration, create_output_declaration_range, V_output_declaration),
              (create_wire_declaration, create_wire_declaration_range, V_wire_declaration)}"
    and "node_ptr g i = Inr src" and "node_ptr g rid = Inr r"
  shows "(\<not> is_identifier src \<and> \<not> is_identifier_list src \<longrightarrow>
            create i g = Inl Aborted \<and> create_range i rid g = Inl Aborted) \<and>
         ((is_identifier src \<or> is_identifier_list src) \<and> node_children r = hi # lo # rest \<longrightarrow>
            (\<exists>h g' n d. create_range i rid g = Inr (h, g') \<and> nodes g' = nodes g @ [n] \<and>
               node_id n = h \<and> node_variant n = declaration d \<and> word_level d \<and>
               decl_hi d = Inr hi \<and> decl_lo d = Inr lo)) \<and>
         ((is_identifier src \<or> is_identifier_list src) \<and> length (node_children r) < 2 \<longrightarrow>
            create_range i rid g = Inl Undefined)"
proof -
  from assms(2) have i: "unat i < length (nodes g)" and src: "src = nodes g ! unat i"
    by (auto simp: node_ptr_def split: if_splits)
  from assms(3) have rid: "unat rid < length (nodes g)" and r: "r = nodes g ! unat rid"
    by (auto simp: node_ptr_def split: if_splits)
  have 1: "create i g = Inl Aborted \<and> create_range i rid g = Inl Aborted"
    if "\<not> is_identifier src \<and> \<not> is_identifier_list src"
    using assms(1) that src
    by (auto simp: adapter_unfold [OF i] adapter_range_unfold [OF i rid])
  have 2: "\<exists>h g' n d. create_range i rid g = Inr (h, g') \<and> nodes g' = nodes g @ [n] \<and>
               node_id n = h \<and> node_variant n = declaration d \<and> word_level d \<and>
               decl_hi d = Inr hi \<and> decl_lo d = Inr lo"
    if "(is_identifier src \<or> is_identifier_list src) \<and> node_children r = hi # lo # rest"
  proof -
    from that have s: "is_identifier_list src \<or> is_identifier src"
      and ch: "node_children r = hi # lo # rest" by auto
    from range_adapter_returns [OF assms(1,2) s assms(3) ch] show ?thesis by blast
  qed
  have 3: "create_range i rid g = Inl Undefined"
    if "(is_identifier src \<or> is_identifier_list src) \<and> length (node_children r) < 2"
  proof -
    from that r have "range_of (nodes g ! unat rid) = Inl Undefined"
      by (simp add: range_of_few_children)
    with assms(1) that src show ?thesis
      by (auto simp: adapter_range_unfold [OF i rid])
  qed
  from 1 2 3 show ?thesis by blast
qed

theorem adapter_precondition_witness:
  "create_input_declaration 4 example_graph = Inl Aborted \<and>
   create_input_declaration_range 4 6 example_graph = Inl Aborted \<and>
   (\<exists>h g' n d. create_wire_declaration_range 0 7 example_graph = Inr (h, g') \<and>
      nodes g' = nodes example_graph @ [n] \<and> node_id n = h \<and>
      node_variant n = V_wire_declaration d \<and> word_level d \<and>
      decl_hi d = Inr 0 \<and> decl_lo d = Inr 5) \<and>
   create_output_declaration_range 0 4 example_graph = Inl Undefined"
proof -
  have a: "(create_input_declaration, create_input_declaration_range, V_input_declaration) \<in>
             {(create_input_declaration, create_input_declaration_range, V_input_declaration),
              (create_output_declaration, create_output_declaration_range, V_output_declaration),
              (create_wire_declaration, create_wire_declaration_range, V_wire_declaration)}" by simp
  have b: "(create_wire_declaration, create_wire_declaration_range, V_wire_declaration) \<in>
             {(create_input_declaration, create_input_declaration_range, V_input_declaration),
              (create_output_declaration, create_output_declaration_range, V_output_declaration),
              (create_wire_declaration, create_wire_declaration_range, V_wire_declaration)}" by simp
  have c: "(create_output_declaration, create_output_declaration_range, V_output_declaration) \<in>
             {(create_input_declaration, create_input_declaration_range, V_input_declaration),
              (create_output_declaration, create_output_declaration_range, V_output_declaration),
              (create_wire_declaration, create_wire_declaration_range, V_wire_declaration)}" by simp
  have ch: "node_children (ast_array_select 7 0 5) = 0 # 5 # []" by (simp add: example_children)
  from adapter_precondition [OF a example_nodes(3) example_nodes(4), THEN conjunct1]
  have 1: "create_input_declaration 4 example_graph = Inl Aborted \<and>
      create_input_declaration_range 4 6 example_graph = Inl Aborted"
    by (simp add: example_classes)
  from adapter_precondition [OF b example_nodes(1) example_nodes(5), of 0 5 "[]",
      THEN conjunct2, THEN conjunct1]
  have 2: "\<exists>h g' n d. create_wire_declaration_range 0 7 example_graph = Inr (h, g') \<and>
      nodes g' = nodes example_graph @ [n] \<and> node_id n = h \<and>
      node_variant n = V_wire_declaration d \<and> word_level d \<and>
      decl_hi d = Inr 0 \<and> decl_lo d = Inr 5"
    by (simp add: example_classes ch)
  from adapter_precondition [OF c example_nodes(1) example_nodes(3), THEN conjunct2, THEN conjunct2]
  have 3: "create_output_declaration_range 0 4 example_graph = Inl Undefined"
    by (simp add: example_classes example_children)
  from 1 2 3 show ?thesis by (intro conjI) simp_all
qed

text \<open>
  The claim as the specification states it, that a \<open>rid\<close> which names no range expression
  is fatal, fails: in the example graph handle 7 names an array select, and
  \<open>create_wire_declaration( 0, 7 )\<close> returns the new handle 8 of a wire declaration with
  \<open>hi = 0\<close> and \<open>lo = 5\<close>, the children of the array select.
\<close>

theorem unchecked_range_counterexample:
  "run example_calls empty_graph = Inr example_graph \<and>
   node_ptr example_graph 0 = Inr (ast_identifier 0 ''a'') \<and>
   node_ptr example_graph 7 = Inr (ast_array_select 7 0 5) \<and>
   \<not> is_range_expression (ast_array_select 7 0 5) \<and>
   create_wire_declaration_range 0 7 example_graph =
     Inr (8, example_graph\<lparr>nodes := nodes example_graph @ [ast_wire_declaration_range 8 [0] 0 5]\<rparr>)"
proof -
  have "create_wire_declaration_range 0 7 example_graph =
     Inr (8, example_graph\<lparr>nodes := nodes example_graph @ [ast_wire_declaration_range 8 [0] 0 5]\<rparr>)"
    by (simp add: create_wire_declaration_range_def example_graph_def create_node_def
        is_identifier_def is_identifier_list_def range_of_def range_hi_def range_lo_def
        child_at_def ast_identifier_def ast_array_select_def ast_node_leaf_def ast_node_with_def)
  with example_graph_run example_nodes(1,5) example_classes(7) show ?thesis by simp
qed

text \<open>
  C5, as the code has it. After a sequence of successful create calls on a fresh arena the
  arena holds one node for every call that is not a repetition of an earlier
  \<open>create_identifier\<close> or \<open>create_arithmetic_identifier\<close> call with the same text, which is
  at most one node per call. Every handle below the size of the arena names exactly one
  node, the one \<open>node_ptr\<close> returns, and that node reports the handle as its \<open>id()\<close>.
\<close>

theorem dense_ids:
  assumes "run cs empty_graph = Inr g"
  shows "length (nodes g) = nodes_created cs \<and> nodes_created cs \<le> length cs \<and>
         (unat h < length (nodes g) \<longrightarrow>
            node_ptr g h = Inr (nodes g ! unat h) \<and> node_id (nodes g ! unat h) = h)"
proof -
  from run_count [OF assms] have n: "length (nodes g) = nodes_created cs" by simp
  have "node_id (nodes g ! unat h) = h" if "unat h < length (nodes g)"
    using run_reachable(1) [OF assms] that by (simp add: ids_dense_def)
  with n nodes_created_le [of cs] show ?thesis by (simp add: node_ptr_def)
qed

theorem dense_ids_witness:
  "nodes_created [Create_identifier ''a'', Create_identifier ''b'', Create_and_expression 0 1] = 3 \<and>
   node_ptr \<lparr>nodes = [ast_identifier 0 ''a'', ast_identifier 1 ''b'', ast_expression2 2 EXPR_AND 0 1],
        identifier_hash = [''a'' \<mapsto> 0, ''b'' \<mapsto> 1],
        arithmetic_identifier_hash = Map.empty\<rparr> 2 = Inr (ast_expression2 2 EXPR_AND 0 1) \<and>
   node_id (ast_expression2 2 EXPR_AND 0 1) = 2"
proof -
  let ?g = "\<lparr>nodes = [ast_identifier 0 ''a'', ast_identifier 1 ''b'', ast_expression2 2 EXPR_AND 0 1],
        identifier_hash = [''a'' \<mapsto> 0, ''b'' \<mapsto> 1],
        arithmetic_identifier_hash = Map.empty\<rparr>"
  have l: "unat (2 :: ast_id) < length (nodes ?g)" by simp
  have n: "nodes ?g ! unat (2 :: ast_id) = ast_expression2 2 EXPR_AND 0 1" by simp
  have s: "length (nodes ?g) = 3" by simp
  from dense_ids [OF example_expression_graph, of 2] l
  show ?thesis unfolding n s by simp
qed

text \<open>
  Counting calls instead of nodes fails: after the two successful calls
  \<open>create_identifier("x")\<close>, \<open>create_identifier("x")\<close> the arena has one node, and handle 1,
  which is below the number of calls, names no node.
\<close>

theorem dense_ids_per_call_counterexample:
  "run [Create_identifier ''x'', Create_identifier ''x''] empty_graph =
     Inr \<lparr>nodes = [ast_identifier 0 ''x''], identifier_hash = [''x'' \<mapsto> 0],
          arithmetic_identifier_hash = Map.empty\<rparr> \<and>
   node_ptr \<lparr>nodes = [ast_identifier 0 ''x''], identifier_hash = [''x'' \<mapsto> 0],
          arithmetic_identifier_hash = Map.empty\<rparr> 1 = Inl Out_of_range"
  using example_shared_identifier by (simp add: node_ptr_def)

text \<open>
  C6. Acyclic by construction. In an arena built from the empty graph by calls whose child
  handles all named existing nodes when they were passed, every child handle of the node
  that a handle \<open>h\<close> names is strictly less than the node's own handle, which is \<open>h\<close>.
\<close>

theorem children_precede_parent:
  assumes "run cs empty_graph = Inr g" and "handles_known cs empty_graph"
    and "node_ptr g h = Inr n" and "c \<in> set (node_children n)"
  shows "c < node_id n \<and> node_id n = h"
proof -
  from assms(3) have i: "unat h < length (nodes g)" and n: "n = nodes g ! unat h"
    by (auto simp: node_ptr_def split: if_splits)
  from run_children_below [OF empty_graph_invariants(4) assms(2) assms(1)] i n assms(4)
  have "unat c < unat h" by (simp add: children_below_def)
  then have "c < h" by (simp add: word_less_nat_alt)
  moreover from run_reachable(1) [OF assms(1)] i n have "node_id n = h" by (simp add: ids_dense_def)
  ultimately show ?thesis by simp
qed

theorem children_precede_parent_witness:
  "(1 :: ast_id) < node_id (ast_expression2 2 EXPR_AND 0 1) \<and> node_id (ast_expression2 2 EXPR_AND 0 1) = 2"
proof -
  let ?cs = "[Create_identifier ''a'', Create_identifier ''b'', Create_and_expression 0 1]"
  let ?g = "\<lparr>nodes = [ast_identifier 0 ''a'', ast_identifier 1 ''b'', ast_expression2 2 EXPR_AND 0 1],
        identifier_hash = [''a'' \<mapsto> 0, ''b'' \<mapsto> 1],
        arithmetic_identifier_hash = Map.empty\<rparr>"
  have k: "handles_known ?cs empty_graph"
    by (simp add: plain_create_defs intern_defs create_node_def empty_graph_def)
  have p: "node_ptr ?g 2 = Inr (ast_expression2 2 EXPR_AND 0 1)" by (simp add: node_ptr_def)
  have c: "(1 :: ast_id) \<in> set (node_children (ast_expression2 2 EXPR_AND 0 1))"
    by (simp add: ast_expression2_def ast_node_with_def)
  from children_precede_parent [OF example_expression_graph k p c] show ?thesis .
qed

text \<open>
  C7. An \<open>ast_or_error\<close> constructed from a handle \<open>h\<close> below \<open>2^31\<close> is valid and its \<open>ast()\<close>
  is \<open>h\<close>: the constructor sets the top bit \<open>0x80000000\<close>, \<open>valid()\<close> tests it and \<open>ast()\<close>
  masks it away. The default-constructed value is not valid.
\<close>

theorem ast_or_error_encoding:
  "(h < 0x80000000 \<longrightarrow> valid (ast_or_error_of h) \<and> ast (ast_or_error_of h) = h) \<and>
   \<not> valid ast_or_error_default"
proof -
  have "valid (ast_or_error_of h)"
    by (simp add: valid_def ast_or_error_of_def)
  moreover have "ast (ast_or_error_of h) = h" if "h < 0x80000000"
    using marker_then_payload [OF that] by (simp add: ast_def ast_or_error_of_def)
  moreover have "\<not> valid ast_or_error_default"
    by (simp add: valid_def ast_or_error_default_def)
  ultimately show ?thesis by simp
qed

theorem ast_or_error_encoding_witness:
  "(5 :: ast_id) < 0x80000000 \<and> valid (ast_or_error_of 5) \<and> ast (ast_or_error_of 5) = 5 \<and>
   (0x7FFFFFFF :: ast_id) < 0x80000000 \<and>
   valid (ast_or_error_of 0x7FFFFFFF) \<and> ast (ast_or_error_of 0x7FFFFFFF) = 0x7FFFFFFF"
proof -
  have a: "(5 :: ast_id) < 0x80000000" and b: "(0x7FFFFFFF :: ast_id) < 0x80000000" by simp_all
  from ast_or_error_encoding [of 5] ast_or_error_encoding [of "0x7FFFFFFF"] a b
  show ?thesis by blast
qed

text \<open>
  C8, as the code has it. \<open>node_ptr\<close> returns the stored node for every handle below the
  size of the arena. For a handle at or beyond the size it returns no node and no error
  value: \<open>std::vector::at\<close> throws \<open>std::out_of_range\<close>, an exception that a caller may
  catch, and the process ends only when nobody does.
\<close>

theorem node_ptr_range:
  "(unat h < length (nodes g) \<longrightarrow> node_ptr g h = Inr (nodes g ! unat h)) \<and>
   (length (nodes g) \<le> unat h \<longrightarrow> node_ptr g h = Inl Out_of_range)"
  by (simp add: node_ptr_def)

theorem node_ptr_range_witness:
  "node_ptr (snd (create_numeral ''7'' empty_graph)) 0 = Inr (ast_numeral 0 ''7'') \<and>
   node_ptr (snd (create_numeral ''7'' empty_graph)) 1 = Inl Out_of_range"
proof -
  let ?g = "snd (create_numeral ''7'' empty_graph)"
  have n: "nodes ?g = [ast_numeral 0 ''7'']"
    by (simp add: create_numeral_def create_node_def empty_graph_def)
  have a: "unat (0 :: ast_id) < length (nodes ?g)" and b: "length (nodes ?g) \<le> unat (1 :: ast_id)"
    by (simp_all add: n)
  from node_ptr_range [of 0 ?g] a have "node_ptr ?g 0 = Inr (nodes ?g ! unat (0 :: ast_id))" by blast
  moreover from node_ptr_range [of 1 ?g] b have "node_ptr ?g 1 = Inl Out_of_range" by blast
  ultimately show ?thesis by (simp add: n)
qed

text \<open>
  The claim that the out-of-range call aborts the process fails: on the empty graph
  \<open>node_ptr( 0 )\<close> throws \<open>std::out_of_range\<close>; it does not reach \<open>std::abort()\<close>.
\<close>

theorem node_ptr_abort_counterexample:
  "node_ptr empty_graph 0 = Inl Out_of_range \<and> node_ptr empty_graph 0 \<noteq> Inl Aborted"
  by (simp add: node_ptr_def empty_graph_def)

text \<open>
  C9. In an arena built from the empty graph every module node and every module
  instantiation node has an empty child list, whatever its arguments, declarations, port
  assignments and parameters are: \<open>is_leaf()\<close> is true and \<open>foreach_child\<close>, in both
  overloads, calls its callback zero times, so it leaves every state and the node as
  they were. The children that
  \<open>foreach_child\<close> visits on a system function node are exactly its arguments, in order:
  the handle of the function name is not among the visited handles unless it is also
  an argument.
\<close>

theorem module_nodes_are_leaves:
  assumes "run cs empty_graph = Inr g" and "n \<in> set (nodes g)"
    and "node_variant n = V_module name args decls \<or>
         node_variant n = V_module_instantiation module_name instance_name port_assignment parameters"
  shows "is_leaf n \<and> foreach_child (\<lambda>child count. Suc count) n 0 = 0 \<and> foreach_child fn n s = s \<and>
         foreach_child_mutable fm n s = (n, s) \<and>
         (\<exists>k. nodes (snd (create_system_function f fargs g)) = nodes g @ [k] \<and>
              node_variant k = V_system_function f \<and>
              foreach_child (\<lambda>child visited. visited @ [child]) k [] = fargs)"
proof -
  from run_reachable(2) [OF assms(1)] assms(2) have "shape_ok n" by (simp add: shapes_ok_def)
  with assms(3) have "node_children n = []" by (auto simp: shape_ok_def)
  then have a: "is_leaf n \<and> foreach_child (\<lambda>child count. Suc count) n 0 = 0 \<and> foreach_child fn n s = s \<and>
      foreach_child_mutable fm n s = (n, s)"
    by (simp add: is_leaf_def foreach_child_def foreach_child_mutable_def)
  have "foldl (\<lambda>visited child. visited @ [child]) acc xs = acc @ xs" for acc xs :: "ast_id list"
    by (induction xs arbitrary: acc) simp_all
  then have "foreach_child (\<lambda>child visited. visited @ [child]) (ast_system_function i f fargs) [] = fargs" for i
    by (simp add: foreach_child_def ast_system_function_def ast_node_with_def foldl_conv_fold)
  then have b: "\<exists>k. nodes (snd (create_system_function f fargs g)) = nodes g @ [k] \<and>
              node_variant k = V_system_function f \<and>
              foreach_child (\<lambda>child visited. visited @ [child]) k [] = fargs"
    by (simp add: create_system_function_def create_node_def ast_system_function_def ast_node_with_def Let_def)
  from a b show ?thesis by simp
qed

theorem module_nodes_are_leaves_witness:
  "is_leaf (ast_module 2 ''m'' [0, 1] []) \<and>
   foreach_child (\<lambda>child count. Suc count) (ast_module 2 ''m'' [0, 1] []) 0 = 0 \<and>
   is_leaf (ast_module_instantiation 3 0 1 [(0, 1)] [1]) \<and>
   foreach_child (\<lambda>child count. Suc count) (ast_module_instantiation 3 0 1 [(0, 1)] [1]) 0 = 0"
proof -
  let ?g = "\<lparr>nodes = [ast_identifier 0 ''a'', ast_identifier 1 ''b'', ast_module 2 ''m'' [0, 1] [],
                 ast_module_instantiation 3 0 1 [(0, 1)] [1]],
        identifier_hash = [''a'' \<mapsto> 0, ''b'' \<mapsto> 1],
        arithmetic_identifier_hash = Map.empty\<rparr>"
  have m: "ast_module 2 ''m'' [0, 1] [] \<in> set (nodes ?g)"
    and i: "ast_module_instantiation 3 0 1 [(0, 1)] [1] \<in> set (nodes ?g)" by simp_all
  have vm: "node_variant (ast_module 2 ''m'' [0, 1] []) = V_module ''m'' [0, 1] []"
    by (simp add: ast_module_def ast_node_leaf_def)
  have vi: "node_variant (ast_module_instantiation 3 0 1 [(0, 1)] [1]) =
      V_module_instantiation 0 1 [(0, 1)] [1]"
    by (simp add: ast_module_instantiation_def ast_node_leaf_def)
  note a = module_nodes_are_leaves [OF example_module_graph m disjI1 [OF vm]]
  note b = module_nodes_are_leaves [OF example_module_graph i disjI2 [OF vi]]
  from a [THEN conjunct1] a [THEN conjunct2, THEN conjunct1]
    b [THEN conjunct1] b [THEN conjunct2, THEN conjunct1]
  show ?thesis by (intro conjI)
qed

text \<open>
  C10. \<open>ast()\<close> of the default-constructed (invalid) value is 0, as is \<open>ast()\<close> of the value
  constructed from handle 0; the first is not valid and the second is. Of all values
  whose \<open>ast()\<close> is 0, the invalid one is the default-constructed sentinel and the valid
  one is the value of handle 0, so \<open>valid()\<close> alone tells them apart.
\<close>

theorem error_sentinel_payload:
  "ast ast_or_error_default = 0 \<and> ast (ast_or_error_of 0) = 0 \<and>
   \<not> valid ast_or_error_default \<and> valid (ast_or_error_of 0) \<and>
   (ast v = 0 \<longrightarrow> (v = ast_or_error_default \<longleftrightarrow> \<not> valid v) \<and> (v = ast_or_error_of 0 \<longleftrightarrow> valid v))"
proof -
  have "(v = ast_or_error_default \<longleftrightarrow> \<not> valid v) \<and> (v = ast_or_error_of 0 \<longleftrightarrow> valid v)"
    if "ast v = 0"
  proof (cases v)
    case (Ast_or_error w)
    from that Ast_or_error have p: "w AND 0x7FFFFFFF = 0" by (simp add: ast_def)
    from payload_and_marker [of w] p have w: "w = w AND 0x80000000" by simp
    show ?thesis
    proof (cases "w AND 0x80000000 = 0")
      case True
      with w have "w = 0" by simp
      with Ast_or_error show ?thesis
        by (simp add: valid_def ast_or_error_default_def ast_or_error_of_def)
    next
      case False
      from marker_only [OF False] w have "w = 0x80000000" by simp
      with Ast_or_error show ?thesis
        by (simp add: valid_def ast_or_error_default_def ast_or_error_of_def)
    qed
  qed
  then show ?thesis
    by (simp add: valid_def ast_def ast_or_error_default_def ast_or_error_of_def)
qed

theorem error_sentinel_payload_witness:
  "ast (Ast_or_error 0x80000000) = 0 \<and>
   (Ast_or_error 0x80000000 = ast_or_error_default \<longleftrightarrow> \<not> valid (Ast_or_error 0x80000000)) \<and>
   (Ast_or_error 0x80000000 = ast_or_error_of 0 \<longleftrightarrow> valid (Ast_or_error 0x80000000))"
proof -
  have h: "ast (Ast_or_error 0x80000000) = 0" by (simp add: ast_def)
  from error_sentinel_payload [of "Ast_or_error 0x80000000"] h show ?thesis by blast
qed

end
